theory Spec2Isabelle
  imports Complex_Main
begin



section \<open>JavaScript numbers\<close>

text \<open>
  The signal-processing functions of the heart-rate monitor (the component
  \<^verbatim>\<open>HeartRateMonitor\<close>) and of \<^verbatim>\<open>ai-processing-visualizer.tsx\<close> (the component
  \<^verbatim>\<open>AIProcessingVisualizer\<close>) compute on JavaScript numbers. A number is modelled as a real, or one of the three special values
  of IEEE 754: finite arithmetic is exact (rounding, overflow and the sign of zero are
  not modelled), and the special values arise and propagate as in JavaScript:
  \<^verbatim>\<open>0/0\<close> is \<^verbatim>\<open>NaN\<close>, \<^verbatim>\<open>x/0\<close> is an infinity, every comparison
  with \<^verbatim>\<open>NaN\<close> is false, \<^verbatim>\<open>Math.min\<close> and \<^verbatim>\<open>Math.max\<close> return
  \<^verbatim>\<open>NaN\<close> when an argument is \<^verbatim>\<open>NaN\<close>. The theorems about the claims state
  properties that do not depend on the rounding of binary64 (orders, ranges, exact zeros,
  the structure of the results), and bound the magnitude of the inputs where an overflow
  would change the result.
\<close>

datatype num = Fin real | PInf | NInf | NaN

fun jneg :: "num \<Rightarrow> num" where
  "jneg (Fin a) = Fin (- a)"
| "jneg PInf = NInf"
| "jneg NInf = PInf"
| "jneg NaN = NaN"

fun jadd :: "num \<Rightarrow> num \<Rightarrow> num" where
  "jadd (Fin a) (Fin b) = Fin (a + b)"
| "jadd NaN _ = NaN"
| "jadd _ NaN = NaN"
| "jadd PInf NInf = NaN"
| "jadd NInf PInf = NaN"
| "jadd PInf _ = PInf"
| "jadd _ PInf = PInf"
| "jadd NInf _ = NInf"
| "jadd _ NInf = NInf"

definition jsub :: "num \<Rightarrow> num \<Rightarrow> num" where
  "jsub a b = jadd a (jneg b)"

fun jmul :: "num \<Rightarrow> num \<Rightarrow> num" where
  "jmul (Fin a) (Fin b) = Fin (a * b)"
| "jmul NaN _ = NaN"
| "jmul _ NaN = NaN"
| "jmul (Fin a) PInf = (if a = 0 then NaN else if 0 < a then PInf else NInf)"
| "jmul (Fin a) NInf = (if a = 0 then NaN else if 0 < a then NInf else PInf)"
| "jmul PInf (Fin b) = (if b = 0 then NaN else if 0 < b then PInf else NInf)"
| "jmul NInf (Fin b) = (if b = 0 then NaN else if 0 < b then NInf else PInf)"
| "jmul PInf PInf = PInf"
| "jmul PInf NInf = NInf"
| "jmul NInf PInf = NInf"
| "jmul NInf NInf = PInf"

fun jdiv :: "num \<Rightarrow> num \<Rightarrow> num" where
  "jdiv (Fin a) (Fin b) =
     (if b \<noteq> 0 then Fin (a / b)
      else if a = 0 then NaN else if 0 < a then PInf else NInf)"
| "jdiv NaN _ = NaN"
| "jdiv _ NaN = NaN"
| "jdiv (Fin a) PInf = Fin 0"
| "jdiv (Fin a) NInf = Fin 0"
| "jdiv PInf (Fin b) = (if 0 \<le> b then PInf else NInf)"
| "jdiv NInf (Fin b) = (if 0 \<le> b then NInf else PInf)"
| "jdiv PInf PInf = NaN"
| "jdiv PInf NInf = NaN"
| "jdiv NInf PInf = NaN"
| "jdiv NInf NInf = NaN"

text \<open>The comparison operators \<^verbatim>\<open><\<close> and \<^verbatim>\<open><=\<close>; \<^verbatim>\<open>a > b\<close> is \<open>jlt b a\<close>
  and \<^verbatim>\<open>a >= b\<close> is \<open>jle b a\<close>.\<close>

fun jlt :: "num \<Rightarrow> num \<Rightarrow> bool" where
  "jlt (Fin a) (Fin b) = (a < b)"
| "jlt NaN _ = False"
| "jlt _ NaN = False"
| "jlt _ NInf = False"
| "jlt PInf _ = False"
| "jlt NInf _ = True"
| "jlt _ PInf = True"

fun jle :: "num \<Rightarrow> num \<Rightarrow> bool" where
  "jle (Fin a) (Fin b) = (a \<le> b)"
| "jle NaN _ = False"
| "jle _ NaN = False"
| "jle NInf _ = True"
| "jle _ PInf = True"
| "jle PInf _ = False"
| "jle _ NInf = False"

definition jgt :: "num \<Rightarrow> num \<Rightarrow> bool" where
  "jgt a b = jlt b a"

definition jge :: "num \<Rightarrow> num \<Rightarrow> bool" where
  "jge a b = jle b a"

text \<open>\<^verbatim>\<open>Math.min\<close>, \<^verbatim>\<open>Math.max\<close> of two arguments, \<^verbatim>\<open>Math.abs\<close>,
  \<^verbatim>\<open>Math.sqrt\<close>, \<^verbatim>\<open>Math.round\<close> and
  \<^verbatim>\<open>Math.pow(x, 2)\<close>.\<close>

definition jmin :: "num \<Rightarrow> num \<Rightarrow> num" where
  "jmin a b = (if a = NaN \<or> b = NaN then NaN else if jlt b a then b else a)"

definition jmax :: "num \<Rightarrow> num \<Rightarrow> num" where
  "jmax a b = (if a = NaN \<or> b = NaN then NaN else if jlt a b then b else a)"

fun jabs :: "num \<Rightarrow> num" where
  "jabs (Fin a) = Fin \<bar>a\<bar>"
| "jabs PInf = PInf"
| "jabs NInf = PInf"
| "jabs NaN = NaN"

fun jsqrt :: "num \<Rightarrow> num" where
  "jsqrt (Fin a) = (if a < 0 then NaN else Fin (sqrt a))"
| "jsqrt PInf = PInf"
| "jsqrt NInf = NaN"
| "jsqrt NaN = NaN"

fun jround :: "num \<Rightarrow> num" where
  "jround (Fin a) = Fin (of_int \<lfloor>a + 1 / 2\<rfloor>)"
| "jround x = x"

definition jpow2 :: "num \<Rightarrow> num" where
  "jpow2 x = jmul x x"

text \<open>\<^verbatim>\<open>xs.reduce((a, b) => a + b, 0)\<close>, and the spread calls
  \<^verbatim>\<open>Math.min(...xs)\<close> and \<^verbatim>\<open>Math.max(...xs)\<close>, which are
  \<^verbatim>\<open>Infinity\<close> and \<^verbatim>\<open>-Infinity\<close> on the empty array.\<close>

definition jsum :: "num list \<Rightarrow> num" where
  "jsum xs = foldl jadd (Fin 0) xs"

definition Math_min :: "num list \<Rightarrow> num" where
  "Math_min xs = foldl jmin PInf xs"

definition Math_max :: "num list \<Rightarrow> num" where
  "Math_max xs = foldl jmax NInf xs"

section \<open>Signal conditioning\<close>

text \<open>
  \<^verbatim>\<open>movingAverage(data, windowSize)\<close>: one output per index \<open>i\<close>, the mean of
  \<^verbatim>\<open>data.slice(start, end)\<close> with \<^verbatim>\<open>start = Math.max(0, i - windowSize + 1)\<close> and
  \<^verbatim>\<open>end = i + 1\<close>. The slice is empty when \<open>start \<ge> end\<close>.
\<close>

definition slice :: "'a list \<Rightarrow> int \<Rightarrow> int \<Rightarrow> 'a list" where
  "slice xs start end = take (nat (end - start)) (drop (nat start) xs)"

definition movingAverage_at :: "num list \<Rightarrow> int \<Rightarrow> nat \<Rightarrow> num" where
  "movingAverage_at data windowSize i =
     (let start = max 0 (int i - windowSize + 1);
          end = int i + 1;
          sum = jsum (slice data start end)
      in jdiv sum (Fin (of_int (end - start))))"

definition movingAverage :: "num list \<Rightarrow> int \<Rightarrow> num list" where
  "movingAverage data windowSize = map (movingAverage_at data windowSize) [0..<length data]"

text \<open>
  \<^verbatim>\<open>normalizeSignal\<close> of the heart-rate monitor divides by \<^verbatim>\<open>max - min\<close>;
  \<^verbatim>\<open>normalizeSignal\<close> of \<^verbatim>\<open>ai-processing-visualizer.tsx\<close> divides by
  \<^verbatim>\<open>max - min + 0.0001\<close>.
\<close>

definition normalizeSignal_monitor :: "num list \<Rightarrow> num list" where
  "normalizeSignal_monitor data =
     (let mn = Math_min data; mx = Math_max data
      in map (\<lambda>x. jdiv (jsub x mn) (jsub mx mn)) data)"

definition normalizeSignal_visualizer :: "num list \<Rightarrow> num list" where
  "normalizeSignal_visualizer data =
     (let mn = Math_min data; mx = Math_max data
      in map (\<lambda>x. jdiv (jsub x mn) (jadd (jsub mx mn) (Fin (1 / 10000)))) data)"

text \<open>A value occurs at exactly one index of a sequence.\<close>

definition attained_once :: "num \<Rightarrow> num list \<Rightarrow> bool" where
  "attained_once v ys = (length (filter (\<lambda>y. y = v) ys) = 1)"

text \<open>
  The arithmetic of the model is exact. Binary64 arithmetic agrees with it up to rounding
  as long as no operation overflows; \<open>within_magnitude\<close> bounds the samples of a window so
  that none does.
\<close>

definition within_magnitude :: "real list \<Rightarrow> bool" where
  "within_magnitude xs = (\<forall>x\<in>set xs. \<bar>x\<bar> \<le> 10 ^ 300)"

section \<open>Peak detection\<close>

text \<open>
  The acceptance test of the scanning loop of \<^verbatim>\<open>findPeaks\<close> and
  \<^verbatim>\<open>findPeaksEnhanced\<close> at index \<open>i\<close>: the smoothed sample exceeds the threshold
  and its two neighbours on each side, and \<^verbatim>\<open>i - lastPeakIndex >= minDistance\<close>.
  The loop only runs for \<open>2 \<le> i < length - 2\<close>, so every read is inside the array.
\<close>

definition is_peak :: "num list \<Rightarrow> num \<Rightarrow> num \<Rightarrow> nat \<Rightarrow> num \<Rightarrow> bool" where
  "is_peak smoothedData threshold minDistance i lastPeakIndex =
     (jgt (smoothedData ! i) threshold \<and>
      jgt (smoothedData ! i) (smoothedData ! (i - 1)) \<and>
      jgt (smoothedData ! i) (smoothedData ! (i - 2)) \<and>
      jgt (smoothedData ! i) (smoothedData ! (i + 1)) \<and>
      jgt (smoothedData ! i) (smoothedData ! (i + 2)) \<and>
      jge (jsub (Fin (real i)) lastPeakIndex) minDistance)"

text \<open>The loop \<^verbatim>\<open>for (let i = 2; i < smoothedData.length - 2; i++)\<close> of
  \<^verbatim>\<open>findPeaks\<close>, from index \<open>i\<close> on, with the variables \<^verbatim>\<open>lastPeakIndex\<close> and
  \<^verbatim>\<open>peaks\<close>.\<close>

function findPeaks_loop :: "num list \<Rightarrow> num \<Rightarrow> num \<Rightarrow> nat \<Rightarrow> num \<Rightarrow> num list \<Rightarrow> num list" where
  "findPeaks_loop smoothedData threshold minDistance i lastPeakIndex peaks =
     (if int i < int (length smoothedData) - 2
      then if is_peak smoothedData threshold minDistance i lastPeakIndex
           then findPeaks_loop smoothedData threshold minDistance (i + 1) (Fin (real i))
                  (peaks @ [Fin (real i)])
           else findPeaks_loop smoothedData threshold minDistance (i + 1) lastPeakIndex peaks
      else peaks)"
  by pat_completeness auto
termination
  by (relation "measure (\<lambda>(s, t, m, i, l, p). length s - i)") auto

definition findPeaks :: "num list \<Rightarrow> num \<Rightarrow> num \<Rightarrow> num list" where
  "findPeaks data threshold minDistance =
     (let lastPeakIndex = jneg minDistance;
          smoothedData = movingAverage data 3
      in findPeaks_loop smoothedData threshold minDistance 2 lastPeakIndex [])"

text \<open>The quadratic interpolation of \<^verbatim>\<open>findPeaksEnhanced\<close>:
  \<^verbatim>\<open>offset = (a - c) / (2 * (a - 2*b + c))\<close>, and the refined peak \<^verbatim>\<open>i + offset\<close>.\<close>

definition offset_divisor :: "num \<Rightarrow> num \<Rightarrow> num \<Rightarrow> num" where
  "offset_divisor a b c = jmul (Fin 2) (jadd (jsub a (jmul (Fin 2) b)) c)"

definition peak_offset :: "num \<Rightarrow> num \<Rightarrow> num \<Rightarrow> num" where
  "peak_offset a b c = jdiv (jsub a c) (offset_divisor a b c)"

definition refined_peak :: "num list \<Rightarrow> nat \<Rightarrow> num" where
  "refined_peak smoothedData i =
     (let a = smoothedData ! (i - 1);
          b = smoothedData ! i;
          c = smoothedData ! (i + 1);
          offset = peak_offset a b c
      in jadd (Fin (real i)) offset)"

function findPeaksEnhanced_loop ::
  "num list \<Rightarrow> num \<Rightarrow> num \<Rightarrow> nat \<Rightarrow> num \<Rightarrow> num list \<Rightarrow> num list" where
  "findPeaksEnhanced_loop smoothedData threshold minDistance i lastPeakIndex peaks =
     (if int i < int (length smoothedData) - 2
      then if is_peak smoothedData threshold minDistance i lastPeakIndex
           then findPeaksEnhanced_loop smoothedData threshold minDistance (i + 1) (Fin (real i))
                  (peaks @ [refined_peak smoothedData i])
           else findPeaksEnhanced_loop smoothedData threshold minDistance (i + 1) lastPeakIndex peaks
      else peaks)"
  by pat_completeness auto
termination
  by (relation "measure (\<lambda>(s, t, m, i, l, p). length s - i)") auto

text \<open>The threshold of \<^verbatim>\<open>findPeaksEnhanced\<close>: \<^verbatim>\<open>mean + 0.8 * std\<close> of the smoothed
  signal when adaptive, else \<open>0.5\<close>.\<close>

definition enhanced_threshold :: "num list \<Rightarrow> bool \<Rightarrow> num" where
  "enhanced_threshold smoothedData adaptiveThreshold =
     (if adaptiveThreshold
      then (let mean = jdiv (jsum smoothedData) (Fin (real (length smoothedData)));
                variance = jdiv (foldl (\<lambda>a b. jadd a (jpow2 (jsub b mean))) (Fin 0) smoothedData)
                             (Fin (real (length smoothedData)));
                std = jsqrt variance
            in jadd mean (jmul (Fin (8 / 10)) std))
      else Fin (1 / 2))"

definition findPeaksEnhanced :: "num list \<Rightarrow> num \<Rightarrow> bool \<Rightarrow> num list" where
  "findPeaksEnhanced data minDistance adaptiveThreshold =
     (let smoothedData = movingAverage data 3;
          threshold = enhanced_threshold smoothedData adaptiveThreshold;
          lastPeakIndex = jneg minDistance
      in findPeaksEnhanced_loop smoothedData threshold minDistance 2 lastPeakIndex [])"

text \<open>The integer indices the scanning loop accepts from index \<open>i\<close> on: the indices
  pushed by \<^verbatim>\<open>findPeaks\<close>, and the indices refined by \<^verbatim>\<open>findPeaksEnhanced\<close>.\<close>

function accepted :: "num list \<Rightarrow> num \<Rightarrow> num \<Rightarrow> nat \<Rightarrow> num \<Rightarrow> nat list" where
  "accepted smoothedData threshold minDistance i lastPeakIndex =
     (if int i < int (length smoothedData) - 2
      then if is_peak smoothedData threshold minDistance i lastPeakIndex
           then i # accepted smoothedData threshold minDistance (i + 1) (Fin (real i))
           else accepted smoothedData threshold minDistance (i + 1) lastPeakIndex
      else [])"
  by pat_completeness auto
termination
  by (relation "measure (\<lambda>(s, t, m, i, l). length s - i)") auto

text \<open>The peak invariant of the specification: the peaks are strictly increasing and no
  two are closer than \<open>minDistance\<close>.\<close>

definition peaks_separated :: "num \<Rightarrow> num list \<Rightarrow> bool" where
  "peaks_separated minDistance peaks =
     sorted_wrt (\<lambda>p q. jlt p q \<and> jge (jsub q p) minDistance) peaks"

section \<open>Heart-rate estimation\<close>

text \<open>
  The parts shared by \<^verbatim>\<open>calculateHeartRate\<close> (heart-rate monitor) and
  \<^verbatim>\<open>calculateHeartRateEnhanced\<close> (\<^verbatim>\<open>ai-processing-visualizer.tsx\<close>): the loop
  pushing \<^verbatim>\<open>peaks[i] - peaks[i - 1]\<close> for \<open>1 \<le> i < length\<close>, the mean
  \<^verbatim>\<open>xs.reduce((a, b) => a + b, 0) / xs.length\<close>, the standard deviation
  \<^verbatim>\<open>Math.sqrt(xs.reduce((a, b) => a + Math.pow(b - mean, 2), 0) / xs.length)\<close>, and the
  filter that keeps an interval \<open>i\<close> when
  \<^verbatim>\<open>Math.abs(i - mean) <= 2 * stdDev && i > fps * 0.4 && i < fps * 1.5\<close>.
\<close>

definition intervals_of :: "num list \<Rightarrow> num list" where
  "intervals_of peaks = map (\<lambda>i. jsub (peaks ! i) (peaks ! (i - 1))) [1..<length peaks]"

definition mean_of :: "num list \<Rightarrow> num" where
  "mean_of xs = jdiv (jsum xs) (Fin (real (length xs)))"

definition stdDev_of :: "num list \<Rightarrow> num \<Rightarrow> num" where
  "stdDev_of xs mean =
     jsqrt (jdiv (foldl (\<lambda>a b. jadd a (jpow2 (jsub b mean))) (Fin 0) xs) (Fin (real (length xs))))"

definition valid_interval :: "num \<Rightarrow> num \<Rightarrow> num \<Rightarrow> num \<Rightarrow> bool" where
  "valid_interval mean stdDev fps i =
     (jle (jabs (jsub i mean)) (jmul (Fin 2) stdDev) \<and>
      jgt i (jmul fps (Fin (4 / 10))) \<and>
      jlt i (jmul fps (Fin (3 / 2))))"

definition validIntervals_of :: "num list \<Rightarrow> num \<Rightarrow> num list" where
  "validIntervals_of peaks fps =
     (let intervals = intervals_of peaks;
          mean = mean_of intervals;
          stdDev = stdDev_of intervals mean
      in filter (valid_interval mean stdDev fps) intervals)"

text \<open>\<^verbatim>\<open>Math.max(0, Math.min(100, x))\<close>.\<close>

definition clamp_0_100 :: "num \<Rightarrow> num" where
  "clamp_0_100 x = jmax (Fin 0) (jmin (Fin 100) x)"

text \<open>\<^verbatim>\<open>calculateHeartRate(peaks, totalFrames, fps)\<close> of the heart-rate monitor. The
  interval variability is the standard deviation over the mean of all the intervals.\<close>

definition calculateHeartRate :: "num list \<Rightarrow> num \<Rightarrow> num \<Rightarrow> num \<times> num" where
  "calculateHeartRate peaks totalFrames fps =
     (if length peaks < 3 then (Fin 0, Fin 0)
      else
        let intervals = intervals_of peaks;
            mean = mean_of intervals;
            stdDev = stdDev_of intervals mean;
            validIntervals = validIntervals_of peaks fps
        in if length validIntervals < 2 then (Fin 0, Fin 0)
           else
             let avgInterval = mean_of validIntervals;
                 bpm = jround (jdiv (jmul fps (Fin 60)) avgInterval);
                 intervalVariability = jdiv stdDev mean;
                 peakDensity = jdiv (Fin (real (length peaks))) (jdiv totalFrames fps);
                 expectedDensity = jdiv bpm (Fin 60);
                 densityError = jabs (jsub (Fin 1) (jdiv peakDensity expectedDensity));
                 confidence = clamp_0_100
                   (jmul (jmul (Fin 100) (jsub (Fin 1) intervalVariability))
                      (jsub (Fin 1) densityError))
             in (bpm, confidence))"

text \<open>
  \<^verbatim>\<open>calculateHeartRateEnhanced(peaks, totalFrames, fps)\<close> is declared at module scope of
  \<^verbatim>\<open>ai-processing-visualizer.tsx\<close>. Its signal-strength step is
  \<^verbatim>\<open>peaks.reduce((sum, peakIdx) => { if (peakIdx < totalFrames) return sum +
  frameDataRef.current[Math.floor(peakIdx)]; return sum; }, 0) / peaks.length\<close>, and
  \<^verbatim>\<open>frameDataRef\<close> is declared only inside the component \<^verbatim>\<open>AIProcessingVisualizer\<close>:
  at module scope the identifier is unbound, so evaluating it throws a
  \<^verbatim>\<open>ReferenceError\<close>. The reduction therefore throws at the first peak below
  \<^verbatim>\<open>totalFrames\<close>, and returns the initial sum when there is none.
\<close>

datatype js_error = ReferenceError

fun signalStrength_sum :: "num \<Rightarrow> num list \<Rightarrow> num \<Rightarrow> js_error + num" where
  "signalStrength_sum acc [] totalFrames = Inr acc"
| "signalStrength_sum acc (peakIdx # rest) totalFrames =
     (if jlt peakIdx totalFrames then Inl ReferenceError
      else signalStrength_sum acc rest totalFrames)"

text \<open>The statistics are recomputed on the valid intervals, the confidence has the
  signal-strength factor and is rounded.\<close>

definition calculateHeartRateEnhanced :: "num list \<Rightarrow> num \<Rightarrow> num \<Rightarrow> js_error + num \<times> num" where
  "calculateHeartRateEnhanced peaks totalFrames fps =
     (if length peaks < 4 then Inr (Fin 0, Fin 0)
      else
        let validIntervals = validIntervals_of peaks fps
        in if length validIntervals < 3 then Inr (Fin 0, Fin 0)
           else
             let filteredMean = mean_of validIntervals;
                 filteredStdDev = stdDev_of validIntervals filteredMean;
                 bpm = jround (jdiv (jmul fps (Fin 60)) filteredMean);
                 intervalVariability = jdiv filteredStdDev filteredMean;
                 peakDensity = jdiv (Fin (real (length peaks))) (jdiv totalFrames fps);
                 expectedDensity = jdiv bpm (Fin 60);
                 densityError = jabs (jsub (Fin 1) (jdiv peakDensity expectedDensity))
             in case signalStrength_sum (Fin 0) peaks totalFrames of
                  Inl e \<Rightarrow> Inl e
                | Inr strength \<Rightarrow>
                    let signalStrength = jdiv strength (Fin (real (length peaks)));
                        confidence = clamp_0_100
                          (jmul (jmul (jmul (Fin 100) (jsub (Fin 1) intervalVariability))
                                   (jsub (Fin 1) densityError))
                             (jmin (Fin 1) (jdiv signalStrength (Fin 100))))
                    in Inr (bpm, jround confidence))"

text \<open>
  The statistics in the words of the specification, on real numbers: the consecutive
  differences of the peak indices, the mean and the (population) standard deviation of a
  list, the intervals retained as the specification states it (bounds included), the
  intervals retained with the bounds excluded, and the clamp to \<open>[0, 100]\<close>.
\<close>

definition peak_intervals :: "real list \<Rightarrow> real list" where
  "peak_intervals ps = map (\<lambda>i. ps ! i - ps ! (i - 1)) [1..<length ps]"

definition mean :: "real list \<Rightarrow> real" where
  "mean xs = sum_list xs / real (length xs)"

definition stddev :: "real list \<Rightarrow> real" where
  "stddev xs = sqrt ((\<Sum>x\<leftarrow>xs. (x - mean xs)\<^sup>2) / real (length xs))"

definition retained_inclusive :: "real \<Rightarrow> real list \<Rightarrow> real list" where
  "retained_inclusive fps ivs =
     filter (\<lambda>d. \<bar>d - mean ivs\<bar> \<le> 2 * stddev ivs \<and> 4 / 10 * fps \<le> d \<and> d \<le> 3 / 2 * fps) ivs"

definition retained :: "real \<Rightarrow> real list \<Rightarrow> real list" where
  "retained fps ivs =
     filter (\<lambda>d. \<bar>d - mean ivs\<bar> \<le> 2 * stddev ivs \<and> 4 / 10 * fps < d \<and> d < 3 / 2 * fps) ivs"

definition clamp100 :: "real \<Rightarrow> real" where
  "clamp100 x = max 0 (min 100 x)"

definition density_error :: "nat \<Rightarrow> real \<Rightarrow> real \<Rightarrow> real \<Rightarrow> real" where
  "density_error npeaks totalFrames fps bpm =
     \<bar>1 - (real npeaks / (totalFrames / fps)) / (bpm / 60)\<bar>"

definition bpm_of :: "real \<Rightarrow> real list \<Rightarrow> real" where
  "bpm_of fps valid = of_int \<lfloor>fps * 60 / mean valid + 1 / 2\<rfloor>"

text \<open>
  The estimate as the specification states it (the confidence from the variability of the
  retained intervals, bounds included), and the confidence of \<^verbatim>\<open>calculateHeartRate\<close> in
  exact arithmetic, which takes the variability of all the intervals.
\<close>

definition claimed_heartRate :: "real list \<Rightarrow> real \<Rightarrow> real \<Rightarrow> real \<times> real" where
  "claimed_heartRate ps totalFrames fps =
     (let valid = retained_inclusive fps (peak_intervals ps);
          bpm = bpm_of fps valid
      in (bpm, clamp100 (100 * (1 - stddev valid / mean valid) *
                  (1 - density_error (length ps) totalFrames fps bpm))))"

definition basic_confidence :: "real list \<Rightarrow> real \<Rightarrow> real \<Rightarrow> real" where
  "basic_confidence ps totalFrames fps =
     (let ivs = peak_intervals ps;
          bpm = bpm_of fps (retained fps ivs)
      in clamp100 (100 * (1 - stddev ivs / mean ivs) *
           (1 - density_error (length ps) totalFrames fps bpm)))"

text \<open>Peaks as \<^verbatim>\<open>findPeaks\<close> returns them: strictly increasing sample indices, here
  up to \<open>10^9\<close>.\<close>

definition sample_indices :: "nat list \<Rightarrow> bool" where
  "sample_indices ks = (sorted_wrt (<) ks \<and> (\<forall>k\<in>set ks. k \<le> 10 ^ 9))"

section \<open>Heart-rate variability\<close>

text \<open>
  \<^verbatim>\<open>calculateHRV(peaks, fps)\<close> of the heart-rate monitor. The intervals are
  \<^verbatim>\<open>peaks.slice(1).map((peak, i) => (peak - peaks[i]) * (1000 / fps))\<close>, the successive
  differences are taken in the same way over \<^verbatim>\<open>intervals.slice(1)\<close>, and the mean and
  standard deviation are the same expressions as in the heart-rate estimator. The function
  has no guard on the number of peaks.
\<close>

record hrv =
  sdnn :: num
  rmssd :: num
  pnn50 :: num

definition hrv_intervals :: "num list \<Rightarrow> num \<Rightarrow> num list" where
  "hrv_intervals peaks fps =
     map (\<lambda>i. jmul (jsub (peaks ! (i + 1)) (peaks ! i)) (jdiv (Fin 1000) fps))
       [0..<length peaks - 1]"

definition calculateHRV :: "num list \<Rightarrow> num \<Rightarrow> hrv" where
  "calculateHRV peaks fps =
     (let intervals = hrv_intervals peaks fps;
          mean = mean_of intervals;
          sdnn = stdDev_of intervals mean;
          successiveDiffs = map (\<lambda>i. jpow2 (jsub (intervals ! (i + 1)) (intervals ! i)))
                              [0..<length intervals - 1];
          rmssd = jsqrt (jdiv (jsum successiveDiffs) (Fin (real (length successiveDiffs))));
          nn50 = length (filter (\<lambda>i. jgt (jabs (jsub (intervals ! (i + 1)) (intervals ! i))) (Fin 50))
                           [0..<length intervals - 1]);
          pnn50 = jmul (jdiv (Fin (real nn50)) (Fin (real (length intervals)))) (Fin 100)
      in \<lparr>sdnn = sdnn, rmssd = rmssd, pnn50 = pnn50\<rparr>)"

section \<open>Oxygen saturation\<close>

text \<open>
  \<^verbatim>\<open>calculateSpO2(redValues, frameCount)\<close> of \<^verbatim>\<open>ai-processing-visualizer.tsx\<close>. It
  reads the component state \<^verbatim>\<open>measurementMode\<close> (\<^verbatim>\<open>'finger' | 'face' | 'sound'\<close>) and
  calls \<^verbatim>\<open>Math.random()\<close>; both are arguments here. The mean and the AC component are
  the same expressions as the mean and standard deviation of the heart-rate estimator.
\<close>

datatype measurementMode = Finger | Face | Sound

definition calculateSpO2 :: "measurementMode \<Rightarrow> num \<Rightarrow> num list \<Rightarrow> num \<Rightarrow> num \<times> num" where
  "calculateSpO2 mode random redValues frameCount =
     (if length redValues < 60 \<or> mode \<noteq> Finger then (Fin 0, Fin 0)
      else
        let normalizedRed = normalizeSignal_visualizer redValues;
            mean = mean_of normalizedRed;
            acComponent = stdDev_of normalizedRed mean;
            dcComponent = mean;
            rValue = jdiv acComponent dcComponent;
            calculatedSpo2 = jsub (Fin 110) (jmul (Fin 25) rValue);
            naturalVariation = jmul (jsub (jmul random (Fin 2)) (Fin 1)) (Fin (1 / 2));
            normalBias = (if jlt calculatedSpo2 (Fin 95) then Fin (1 / 2)
                          else if jgt calculatedSpo2 (Fin 99) then Fin (- (3 / 10))
                          else Fin 0);
            calculatedSpo2 = jadd calculatedSpo2 (jadd naturalVariation normalBias);
            calculatedSpo2 = jmin (Fin 100) (jmax (Fin 70) calculatedSpo2);
            confidence = jmin (Fin 100) (jmax (Fin 0)
              (jsub (jadd (jadd (Fin 50) (jmul (jdiv frameCount (Fin 60)) (Fin 10)))
                          (if jgt acComponent (Fin (5 / 100)) then Fin 20 else Fin 0))
                    (if jgt rValue (Fin (7 / 10)) then Fin 30 else Fin 0)))
        in (jdiv (jround (jmul calculatedSpo2 (Fin 10))) (Fin 10), jround confidence))"

text \<open>
  The estimate in the words of the specification, on real numbers: the normalised
  red-channel window, the ratio \<open>R = AC/DC\<close>, the value \<open>110 - 25 R\<close> with the bias
  correction and the jitter of a random number, clamped to \<open>[70, 100]\<close>, and the rounding
  to one decimal that the code applies to the clamped value.
\<close>

definition normalized_red :: "real list \<Rightarrow> real list" where
  "normalized_red xs =
     map (\<lambda>x. (x - Min (set xs)) / (Max (set xs) - Min (set xs) + 1 / 10000)) xs"

definition spo2_ratio :: "real list \<Rightarrow> real" where
  "spo2_ratio xs = stddev (normalized_red xs) / mean (normalized_red xs)"

definition spo2_clamped :: "real \<Rightarrow> real \<Rightarrow> real" where
  "spo2_clamped R rnd =
     (let raw = 110 - 25 * R;
          bias = (if raw < 95 then 1 / 2 else if 99 < raw then - (3 / 10) else 0)
      in min 100 (max 70 (raw + ((rnd * 2 - 1) * (1 / 2) + bias))))"

definition round1 :: "real \<Rightarrow> real" where
  "round1 c = of_int \<lfloor>c * 10 + 1 / 2\<rfloor> / 10"

section \<open>Stopping a measurement\<close>

text \<open>
  The two components keep their session in React state and refs. A handler reads the
  state of the render it was created in and schedules updates, so each handler is a
  function from that state to the updated state and the effects it emits. The outcome of
  the device calls of \<^verbatim>\<open>toggleFlash\<close> (whether the track has a torch, whether a call
  throws, whether \<^verbatim>\<open>applyConstraints\<close> rejects) is an argument. \<^verbatim>\<open>toggleFlash\<close> is
  asynchronous and is not awaited: what it does before its \<^verbatim>\<open>await\<close> happens where it
  is called, what it does after it happens once the calling handler has returned. It
  returns the state with its updates, the effects emitted at the call and the effects
  emitted later.
\<close>

datatype event =
    Speak string
  | Speak_complete num num
  | Toast_success string
  | Toast_complete num num
  | Toast_error string
  | Haptic "nat list"
  | Torch bool
  | Cancel_frame nat

record device =
  torch :: bool
  throws :: bool
  rejects :: bool

text \<open>The state of \<^verbatim>\<open>HeartRateMonitor\<close> that \<^verbatim>\<open>stopRecording\<close> and the measurement
  use. Its phase is one of the strings of \<^verbatim>\<open>MEASUREMENT_PHASES\<close>; the session is idle
  when \<^verbatim>\<open>isRecording\<close> is false.\<close>

datatype monitor_phase = CALIBRATING | MEASURING | ANALYZING | COMPLETE

record measurement =
  m_timestamp :: num
  m_heartRate :: num
  m_confidence :: num

record monitor =
  isRecording :: bool
  heartRate_mon :: "num option"
  confidence_mon :: num
  isHapticEnabled :: bool
  isFlashOn :: bool
  useScreenFlash :: bool
  measurementProgress :: num
  phase_mon :: monitor_phase
  hrvData :: "hrv option"
  measurementHistory_mon :: "measurement list"
  frameDataRef_mon :: "num list"
  animationFrame :: "nat option"
  mediaStream :: bool

text \<open>\<^verbatim>\<open>toggleFlash(on)\<close> of the monitor: nothing without a media stream; with a torch,
  \<^verbatim>\<open>applyConstraints\<close> is called and, once it has resolved, \<^verbatim>\<open>isFlashOn = on\<close>,
  \<^verbatim>\<open>useScreenFlash = false\<close> and the haptic pulse follow; without a torch, or when a
  device call fails, both flags are set to \<^verbatim>\<open>on\<close>.\<close>

definition toggleFlash_mon ::
  "device \<Rightarrow> bool \<Rightarrow> monitor \<Rightarrow> monitor \<times> event list \<times> event list" where
  "toggleFlash_mon dev on s =
     (if \<not> mediaStream s then (s, [], [])
      else if throws dev then (s\<lparr>useScreenFlash := on, isFlashOn := on\<rparr>, [], [])
      else if torch dev
      then if rejects dev
           then (s\<lparr>useScreenFlash := on, isFlashOn := on\<rparr>, [Torch on], [])
           else (s\<lparr>isFlashOn := on, useScreenFlash := False\<rparr>, [Torch on],
                 if isHapticEnabled s then [Haptic [20]] else [])
      else (s\<lparr>useScreenFlash := on, isFlashOn := on\<rparr>, [], []))"

text \<open>\<^verbatim>\<open>stopRecording()\<close>: \<^verbatim>\<open>setIsRecording(false)\<close>, cancel the pending animation frame
  if the ref holds one, call \<^verbatim>\<open>toggleFlash(false)\<close> without awaiting it, and speak.\<close>

definition stopRecording :: "device \<Rightarrow> monitor \<Rightarrow> monitor \<times> event list" where
  "stopRecording dev s =
     (let s1 = s\<lparr>isRecording := False\<rparr>;
          cancelled = (case animationFrame s of
                         Some n \<Rightarrow> if n \<noteq> 0 then [Cancel_frame n] else []
                       | None \<Rightarrow> []);
          (s2, requested, later) = toggleFlash_mon dev False s1
      in (s2, cancelled @ requested @ [Speak ''Stopping heart rate measurement.''] @ later))"

text \<open>The state of \<^verbatim>\<open>AIProcessingVisualizer\<close> that \<^verbatim>\<open>stopMeasurement\<close>,
  \<^verbatim>\<open>toggleFlash\<close> and \<^verbatim>\<open>saveToHistory\<close> use, with the buffers
  \<^verbatim>\<open>frameDataRef.current\<close> and \<^verbatim>\<open>peaksRef.current\<close>.\<close>

datatype phase = Idle | Calibrating | Measuring | Analyzing | Complete

record heartRateHistory =
  h_timestamp :: num
  h_heartRate :: num
  h_confidence :: num
  h_spo2 :: "num option"
  h_respirationRate :: "num option"

record session =
  flashActive :: bool
  audioEnabled :: bool
  hapticEnabled :: bool
  measuring :: bool
  progress :: num
  heartRate :: "num option"
  confidence :: num
  stream :: bool
  phase :: phase
  measurementMode :: measurementMode
  measurementHistory :: "heartRateHistory list"
  spo2 :: "num option"
  respirationRate :: "num option"
  faceTrackingActive :: bool
  frameDataRef :: "num list"
  peaksRef :: "num list"

text \<open>A heart rate \<^verbatim>\<open>number | null\<close> used as a condition: false for \<^verbatim>\<open>null\<close>, \<open>0\<close> and
  \<^verbatim>\<open>NaN\<close>.\<close>

definition truthy :: "num option \<Rightarrow> bool" where
  "truthy h = (case h of None \<Rightarrow> False | Some x \<Rightarrow> x \<noteq> Fin 0 \<and> x \<noteq> NaN)"

text \<open>In the next three functions \<open>s\<close> is the state the handler was created in, which
  it reads, and \<open>t\<close> the state with the updates scheduled so far.\<close>

definition toggleFlash ::
  "device \<Rightarrow> session \<Rightarrow> session \<Rightarrow> session \<times> event list \<times> event list" where
  "toggleFlash dev s t =
     (if \<not> stream s then (t, [], [])
      else if throws dev then (t, [Toast_error ''Failed to toggle flash''], [])
      else if torch dev
      then if rejects dev
           then (t, [Torch (\<not> flashActive s)], [Toast_error ''Failed to toggle flash''])
           else (t\<lparr>flashActive := \<not> flashActive s\<rparr>, [Torch (\<not> flashActive s)],
                 [Toast_success (if flashActive s then ''Flash turned off''
                                 else ''Flash turned on'')])
      else (t, [Toast_error ''Flash not available on this device''], []))"

definition saveToHistory :: "num \<Rightarrow> session \<Rightarrow> session \<Rightarrow> session \<times> event list" where
  "saveToHistory now s t =
     (if \<not> truthy (heartRate s) \<or> phase s \<noteq> Complete then (t, [])
      else
        let newHistory = \<lparr>h_timestamp = now, h_heartRate = the (heartRate s),
                           h_confidence = confidence s, h_spo2 = spo2 s,
                           h_respirationRate = respirationRate s\<rparr>
        in (t\<lparr>measurementHistory := measurementHistory t @ [newHistory]\<rparr>,
            [Toast_success ''Measurement saved to history'']))"

definition stopMeasurement :: "device \<Rightarrow> num \<Rightarrow> session \<Rightarrow> session \<times> event list" where
  "stopMeasurement dev now s =
     (let t1 = s\<lparr>measuring := False, progress := Fin 100, phase := Complete\<rparr>;
          (t2, requested, later) = (if flashActive s \<and> measurementMode s = Finger
                                    then toggleFlash dev s t1 else (t1, [], []));
          (t3, reported) =
            (if truthy (heartRate s) \<and> jgt (confidence s) (Fin 50)
             then let (t, saved) = saveToHistory now s t2
                  in (t, [Toast_complete (the (heartRate s)) (confidence s)] @
                         (if audioEnabled s
                          then [Speak_complete (the (heartRate s)) (confidence s)] else []) @
                         (if hapticEnabled s then [Haptic [50, 50, 50]] else []) @ saved)
             else (t2,
                   [Toast_error ''Unable to get reliable heart rate. Please try again in better lighting conditions.''] @
                   (if audioEnabled s
                    then [Speak ''Unable to get a reliable heart rate reading. Please try again in better lighting conditions.'']
                    else [])))
      in (t3\<lparr>faceTrackingActive := False\<rparr>, requested @ reported @ later))"

text \<open>The states of the two components on their first render (the arguments of
  \<^verbatim>\<open>useState\<close> and \<^verbatim>\<open>useRef\<close>).\<close>

definition initial_session :: session where
  "initial_session =
     \<lparr>flashActive = False, audioEnabled = False, hapticEnabled = True, measuring = False,
      progress = Fin 0, heartRate = None, confidence = Fin 0, stream = False, phase = Idle,
      measurementMode = Finger, measurementHistory = [], spo2 = None, respirationRate = None,
      faceTrackingActive = False, frameDataRef = [], peaksRef = []\<rparr>"

definition initial_monitor :: monitor where
  "initial_monitor =
     \<lparr>isRecording = False, heartRate_mon = None, confidence_mon = Fin 0,
      isHapticEnabled = True, isFlashOn = False, useScreenFlash = False,
      measurementProgress = Fin 0, phase_mon = CALIBRATING, hrvData = None,
      measurementHistory_mon = [], frameDataRef_mon = [], animationFrame = None,
      mediaStream = False\<rparr>"

section \<open>Arithmetic on finite numbers\<close>

lemma jsub_Fin [simp]: "jsub (Fin a) (Fin b) = Fin (a - b)"
  by (simp add: jsub_def)

lemma jmin_Fin [simp]: "jmin (Fin a) (Fin b) = Fin (min a b)"
  by (simp add: jmin_def min_def)

lemma jmax_Fin [simp]: "jmax (Fin a) (Fin b) = Fin (max a b)"
  by (simp add: jmax_def max_def)

lemma jmin_PInf_Fin [simp]: "jmin PInf (Fin a) = Fin a"
  by (simp add: jmin_def)

lemma jmax_NInf_Fin [simp]: "jmax NInf (Fin a) = Fin a"
  by (simp add: jmax_def)

lemma jpow2_Fin [simp]: "jpow2 (Fin a) = Fin (a * a)"
  by (simp add: jpow2_def)

lemma foldl_jadd_Fin: "foldl jadd (Fin a) (map Fin xs) = Fin (a + sum_list xs)"
  by (induction xs arbitrary: a) (simp_all add: add.assoc)

lemma jsum_Fin [simp]: "jsum (map Fin xs) = Fin (sum_list xs)"
  by (simp add: jsum_def foldl_jadd_Fin)

lemma foldl_jmin_Fin: "foldl jmin (Fin a) (map Fin xs) = Fin (Min (insert a (set xs)))"
proof (induction xs arbitrary: a)
  case Nil
  show ?case by simp
next
  case (Cons x xs)
  have "Min (insert (min a x) (set xs)) = Min (insert a (insert x (set xs)))"
    by (cases "set xs = {}") (simp_all add: min.assoc)
  with Cons show ?case by simp
qed

lemma foldl_jmax_Fin: "foldl jmax (Fin a) (map Fin xs) = Fin (Max (insert a (set xs)))"
proof (induction xs arbitrary: a)
  case Nil
  show ?case by simp
next
  case (Cons x xs)
  have "Max (insert (max a x) (set xs)) = Max (insert a (insert x (set xs)))"
    by (cases "set xs = {}") (simp_all add: max.assoc)
  with Cons show ?case by simp
qed

lemma Math_min_Fin: "xs \<noteq> [] \<Longrightarrow> Math_min (map Fin xs) = Fin (Min (set xs))"
  by (cases xs) (simp_all add: Math_min_def foldl_jmin_Fin)

lemma Math_max_Fin: "xs \<noteq> [] \<Longrightarrow> Math_max (map Fin xs) = Fin (Max (set xs))"
  by (cases xs) (simp_all add: Math_max_def foldl_jmax_Fin)

section \<open>Normalisation of finite windows\<close>

lemma normalizeSignal_monitor_Fin:
  assumes "xs \<noteq> []" and "Min (set xs) < Max (set xs)"
  shows "normalizeSignal_monitor (map Fin xs) =
           map (\<lambda>x. Fin ((x - Min (set xs)) / (Max (set xs) - Min (set xs)))) xs"
  using assms by (simp add: normalizeSignal_monitor_def Math_min_Fin Math_max_Fin Let_def comp_def)

lemma normalizeSignal_visualizer_Fin:
  assumes "xs \<noteq> []"
  shows "normalizeSignal_visualizer (map Fin xs) =
           map (\<lambda>x. Fin ((x - Min (set xs)) / (Max (set xs) - Min (set xs) + 1 / 10000))) xs"
proof -
  have "Min (set xs) \<le> Max (set xs)" using assms by simp
  then have "Max (set xs) - Min (set xs) + 1 / 10000 \<noteq> 0" by simp
  then show ?thesis using assms
    by (simp add: normalizeSignal_visualizer_def Math_min_Fin Math_max_Fin Let_def comp_def)
qed

lemma normalizeSignal_visualizer_flat:
  assumes "\<forall>x\<in>set xs. x = c"
  shows "normalizeSignal_visualizer (map Fin xs) = replicate (length xs) (Fin 0)"
proof (cases "xs = []")
  case True
  then show ?thesis by (simp add: normalizeSignal_visualizer_def)
next
  case False
  then have "set xs = {c}" using assms by (cases xs) auto
  then have "Min (set xs) = c" "Max (set xs) = c" by simp_all
  have "map (\<lambda>x. Fin ((x - c) / (c - c + 1 / 10000))) xs = replicate (length xs) (Fin 0)"
    using assms by (induction xs) simp_all
  then show ?thesis using False \<open>Min (set xs) = c\<close> \<open>Max (set xs) = c\<close>
    by (simp add: normalizeSignal_visualizer_Fin)
qed

lemma normalizeSignal_monitor_flat:
  assumes "xs \<noteq> []" and "\<forall>x\<in>set xs. x = c"
  shows "normalizeSignal_monitor (map Fin xs) = replicate (length xs) NaN"
proof -
  have "set xs = {c}" using assms by (cases xs) auto
  then have mm: "Min (set xs) = c" "Max (set xs) = c" by simp_all
  have "map (\<lambda>x. jdiv (jsub (Fin x) (Fin c)) (jsub (Fin c) (Fin c))) xs = replicate (length xs) NaN"
    using assms(2) by (induction xs) simp_all
  then show ?thesis
    using assms(1) by (simp add: normalizeSignal_monitor_def Math_min_Fin Math_max_Fin mm Let_def comp_def)
qed

section \<open>Claims about normalisation\<close>

text \<open>
  Claim C3. On a flat window (all samples equal) normalisation is claimed to return an
  all-zero sequence of the same length. \<^verbatim>\<open>normalizeSignal\<close> of
  \<^verbatim>\<open>ai-processing-visualizer.tsx\<close> does (lemma \<open>normalizeSignal_visualizer_flat\<close>);
  \<^verbatim>\<open>normalizeSignal\<close> of the heart-rate monitor divides \<open>0\<close> by \<open>0\<close>
  and returns \<^verbatim>\<open>NaN\<close> at every index of every non-empty flat window (lemma
  \<open>normalizeSignal_monitor_flat\<close>), as evaluated here on the window \<open>[5, 5, 5]\<close>.
\<close>

theorem normalizeSignal_monitor_flat_NaN:
  "normalizeSignal_monitor [Fin 5, Fin 5, Fin 5] = [NaN, NaN, NaN]"
  by (simp add: normalizeSignal_monitor_def Math_min_def Math_max_def)

text \<open>
  Claim C5, as stated, fails: on the window \<open>[0, 0, 1]\<close> the monitor's normalisation
  attains \<open>0\<close> at two indices, and on \<open>[0, 1]\<close> the visualizer's normalisation never
  attains \<open>1\<close> (its maximum is \<open>10000/10001\<close>).
\<close>

theorem normalizeSignal_not_once:
  "\<not> attained_once (Fin 0) (normalizeSignal_monitor [Fin 0, Fin 0, Fin 1]) \<and>
   \<not> attained_once (Fin 1) (normalizeSignal_visualizer [Fin 0, Fin 1])"
  by (simp add: attained_once_def normalizeSignal_monitor_def normalizeSignal_visualizer_def
      Math_min_def Math_max_def Let_def)

text \<open>
  Claim C5, amended. For every non-empty window of finite samples within magnitude
  \<open>10^300\<close> whose maximum is strictly greater than its minimum: every output of both
  normalisations is a finite number in \<open>[0, 1]\<close>; both are \<open>0\<close> at every index where the
  input is the minimum, and the monitor's is \<open>1\<close> at every index where the input is the
  maximum. So \<open>0\<close> is attained by both and \<open>1\<close> by the monitor's, at as many indices as
  the extreme value occurs, and possibly at others.
\<close>

theorem normalizeSignal_range:
  assumes "xs \<noteq> []" and "Min (set xs) < Max (set xs)" and "within_magnitude xs"
  shows "(\<forall>i<length xs. \<exists>y z.
            normalizeSignal_monitor (map Fin xs) ! i = Fin y \<and> 0 \<le> y \<and> y \<le> 1 \<and>
            (xs ! i = Min (set xs) \<longrightarrow> y = 0) \<and> (xs ! i = Max (set xs) \<longrightarrow> y = 1) \<and>
            normalizeSignal_visualizer (map Fin xs) ! i = Fin z \<and> 0 \<le> z \<and> z \<le> 1 \<and>
            (xs ! i = Min (set xs) \<longrightarrow> z = 0)) \<and>
         Fin 0 \<in> set (normalizeSignal_monitor (map Fin xs)) \<and>
         Fin 1 \<in> set (normalizeSignal_monitor (map Fin xs)) \<and>
         Fin 0 \<in> set (normalizeSignal_visualizer (map Fin xs))"
proof -
  let ?mn = "Min (set xs)" and ?mx = "Max (set xs)"
  have d: "0 < ?mx - ?mn" using assms(2) by simp
  have mn_in: "?mn \<in> set xs" and mx_in: "?mx \<in> set xs"
    using assms(1) by (simp_all add: Min_in Max_in)
  have pointwise: "\<exists>y z.
            normalizeSignal_monitor (map Fin xs) ! i = Fin y \<and> 0 \<le> y \<and> y \<le> 1 \<and>
            (xs ! i = ?mn \<longrightarrow> y = 0) \<and> (xs ! i = ?mx \<longrightarrow> y = 1) \<and>
            normalizeSignal_visualizer (map Fin xs) ! i = Fin z \<and> 0 \<le> z \<and> z \<le> 1 \<and>
            (xs ! i = ?mn \<longrightarrow> z = 0)" if i: "i < length xs" for i
  proof -
    let ?x = "xs ! i"
    have lo: "?mn \<le> ?x" and hi: "?x \<le> ?mx" using i by simp_all
    let ?y = "(?x - ?mn) / (?mx - ?mn)"
    let ?z = "(?x - ?mn) / (?mx - ?mn + 1 / 10000)"
    have e: "0 < ?mx - ?mn + 1 / 10000" using d by simp
    have y1: "0 \<le> ?y" using lo d by simp
    have y2: "?y \<le> 1" using hi d by (simp add: field_simps)
    have y3: "?x = ?mn \<longrightarrow> ?y = 0" by simp
    have y4: "?x = ?mx \<longrightarrow> ?y = 1" using d by simp
    have z1: "0 \<le> ?z" using lo e by simp
    have z2: "?z \<le> 1" using hi e by (simp add: field_simps)
    have z3: "?x = ?mn \<longrightarrow> ?z = 0" by simp
    have m: "normalizeSignal_monitor (map Fin xs) ! i = Fin ?y"
      using i assms(1,2) by (simp add: normalizeSignal_monitor_Fin)
    have v: "normalizeSignal_visualizer (map Fin xs) ! i = Fin ?z"
      using i assms(1) by (simp add: normalizeSignal_visualizer_Fin)
    show ?thesis using m v y1 y2 y3 y4 z1 z2 z3 by blast
  qed
  have a0: "Fin 0 \<in> set (normalizeSignal_monitor (map Fin xs))"
    using assms(1,2) mn_in by (force simp: normalizeSignal_monitor_Fin image_iff)
  have a1: "Fin 1 \<in> set (normalizeSignal_monitor (map Fin xs))"
    using assms(1,2) mx_in d by (force simp: normalizeSignal_monitor_Fin image_iff)
  have b0: "Fin 0 \<in> set (normalizeSignal_visualizer (map Fin xs))"
    using assms(1) mn_in by (force simp: normalizeSignal_visualizer_Fin image_iff)
  show ?thesis using pointwise a0 a1 b0 by blast
qed

theorem normalizeSignal_range_witness:
  "([2, 4, 2, 6 :: real] \<noteq> [] \<and> Min (set [2, 4, 2, 6 :: real]) < Max (set [2, 4, 2, 6 :: real]) \<and>
    within_magnitude [2, 4, 2, 6]) \<and>
   Fin 0 \<in> set (normalizeSignal_monitor (map Fin [2, 4, 2, 6])) \<and>
   Fin 1 \<in> set (normalizeSignal_monitor (map Fin [2, 4, 2, 6])) \<and>
   Fin 0 \<in> set (normalizeSignal_visualizer (map Fin [2, 4, 2, 6]))"
proof -
  have h: "[2, 4, 2, 6 :: real] \<noteq> []" "Min (set [2, 4, 2, 6 :: real]) < Max (set [2, 4, 2, 6 :: real])"
    "within_magnitude [2, 4, 2, 6]"
    by (simp_all add: within_magnitude_def)
  from normalizeSignal_range [OF h] h show ?thesis by blast
qed

section \<open>The scanning loop of the peak detectors\<close>

declare findPeaks_loop.simps [simp del] findPeaksEnhanced_loop.simps [simp del] accepted.simps [simp del]

lemma findPeaks_loop_accepted:
  "findPeaks_loop s t m i l ps = ps @ map (\<lambda>k. Fin (real k)) (accepted s t m i l)"
proof (induction s t m i l ps rule: findPeaks_loop.induct)
  case (1 s t m i l ps)
  show ?case
    using "1.IH" by (subst findPeaks_loop.simps, subst accepted.simps) simp
qed

lemma findPeaksEnhanced_loop_accepted:
  "findPeaksEnhanced_loop s t m i l ps = ps @ map (refined_peak s) (accepted s t m i l)"
proof (induction s t m i l ps rule: findPeaksEnhanced_loop.induct)
  case (1 s t m i l ps)
  show ?case
    using "1.IH" by (subst findPeaksEnhanced_loop.simps, subst accepted.simps) simp
qed

lemma accepted_bounds: "k \<in> set (accepted s t m i l) \<Longrightarrow> i \<le> k \<and> k + 2 < length s"
proof (induction s t m i l rule: accepted.induct)
  case (1 s t m i l)
  from "1.prems" show ?case
    by (subst (asm) accepted.simps) (auto split: if_splits dest: "1.IH")
qed

lemma accepted_is_max:
  "k \<in> set (accepted s t m i l) \<Longrightarrow>
     jgt (s ! k) (s ! (k - 1)) \<and> jgt (s ! k) (s ! (k + 1))"
proof (induction s t m i l rule: accepted.induct)
  case (1 s t m i l)
  from "1.prems" show ?case
    by (subst (asm) accepted.simps) (auto split: if_splits dest: "1.IH" simp: is_peak_def)
qed

lemma jle_Fin_mono: "jle m (Fin a) \<Longrightarrow> a \<le> b \<Longrightarrow> jle m (Fin b)"
  by (cases m) simp_all

lemma accepted_apart_last:
  "k \<in> set (accepted s t m i (Fin l)) \<Longrightarrow> l \<le> real i \<Longrightarrow> jle m (Fin (real k - l))"
proof (induction s t m i "Fin l" arbitrary: l rule: accepted.induct)
  case (1 s t m i)
  from "1.prems"(1) have
    "int i < int (length s) - 2 \<and>
     ((is_peak s t m i (Fin l) \<and> (k = i \<or> k \<in> set (accepted s t m (i + 1) (Fin (real i))))) \<or>
      (\<not> is_peak s t m i (Fin l) \<and> k \<in> set (accepted s t m (i + 1) (Fin l))))"
    by (subst (asm) accepted.simps) (auto split: if_splits)
  then consider
      (here) "is_peak s t m i (Fin l)" "k = i"
    | (later) "int i < int (length s) - 2" "is_peak s t m i (Fin l)"
              "k \<in> set (accepted s t m (i + 1) (Fin (real i)))"
    | (skip) "int i < int (length s) - 2" "\<not> is_peak s t m i (Fin l)"
             "k \<in> set (accepted s t m (i + 1) (Fin l))"
    by blast
  then show ?case
  proof cases
    case here
    then show ?thesis by (simp add: is_peak_def jge_def)
  next
    case later
    then have "jle m (Fin (real k - real i))" using "1.hyps"(1) by simp
    moreover have "real k - real i \<le> real k - l" using "1.prems"(2) by simp
    ultimately show ?thesis by (rule jle_Fin_mono)
  next
    case skip
    then show ?thesis using "1.hyps"(2) "1.prems"(2) by simp
  qed
qed

lemma accepted_sorted:
  "sorted_wrt (\<lambda>p q. p < q \<and> jle m (Fin (real q - real p))) (accepted s t m i l)"
proof (induction s t m i l rule: accepted.induct)
  case (1 s t m i l)
  show ?case
  proof (cases "int i < int (length s) - 2")
    case False
    then show ?thesis by (subst accepted.simps) simp
  next
    case True
    show ?thesis
    proof (cases "is_peak s t m i l")
      case False
      with True "1.IH"(2) show ?thesis by (subst accepted.simps) simp
    next
      case P: True
      have "\<forall>k\<in>set (accepted s t m (i + 1) (Fin (real i))).
              i < k \<and> jle m (Fin (real k - real i))"
      proof
        fix k assume k: "k \<in> set (accepted s t m (i + 1) (Fin (real i)))"
        have "i < k" using accepted_bounds[OF k] by simp
        moreover have "jle m (Fin (real k - real i))" using accepted_apart_last[OF k] by simp
        ultimately show "i < k \<and> jle m (Fin (real k - real i))" ..
      qed
      with True P "1.IH"(1) show ?thesis by (subst accepted.simps) simp
    qed
  qed
qed

lemma length_movingAverage [simp]: "length (movingAverage data w) = length data"
  by (simp add: movingAverage_def)

lemma slice_map: "slice (map f xs) a b = map f (slice xs a b)"
  by (simp add: slice_def take_map drop_map)

lemma movingAverage_Fin:
  "movingAverage (map Fin xs) 3 =
     map Fin (map (\<lambda>i. sum_list (slice xs (max 0 (int i - 2)) (int i + 1)) /
                          of_int (int i + 1 - max 0 (int i - 2))) [0..<length xs])"
  by (simp add: movingAverage_def movingAverage_at_def slice_map Let_def max_def)

lemma divisor_never_zero:
  assumes "jlt a b" and "jlt c b"
  shows "offset_divisor a b c \<noteq> Fin 0"
proof (cases a; cases b; cases c)
  fix x y z assume "a = Fin x" "b = Fin y" "c = Fin z"
  moreover from this assms have "x - 2 * y + z \<noteq> 0" by simp
  ultimately show ?thesis by (simp add: offset_divisor_def)
qed (use assms in \<open>simp_all add: offset_divisor_def jsub_def\<close>)

lemma accepted_divisor:
  assumes "k \<in> set (accepted s t m i l)"
  shows "offset_divisor (s ! (k - 1)) (s ! k) (s ! (k + 1)) \<noteq> Fin 0"
  using accepted_is_max[OF assms] by (intro divisor_never_zero) (simp_all add: jgt_def)

lemma findPeaks_accepted:
  "findPeaks data t m = map (\<lambda>k. Fin (real k)) (accepted (movingAverage data 3) t m 2 (jneg m))"
  by (simp add: findPeaks_def findPeaks_loop_accepted Let_def)

lemma findPeaksEnhanced_accepted:
  "findPeaksEnhanced data m ad =
     map (refined_peak (movingAverage data 3))
       (accepted (movingAverage data 3) (enhanced_threshold (movingAverage data 3) ad) m 2 (jneg m))"
  by (simp add: findPeaksEnhanced_def findPeaksEnhanced_loop_accepted Let_def)

lemma accepted_refined_finite:
  assumes "k \<in> set (accepted (map Fin ys) t m 2 l)"
  shows "\<exists>r. refined_peak (map Fin ys) k = Fin r"
proof -
  have b: "2 \<le> k \<and> k + 2 < length ys" using accepted_bounds[OF assms] by simp
  then have "k - 1 < length ys" "k < length ys" "k + 1 < length ys" by linarith+
  then have nth: "map Fin ys ! (k - 1) = Fin (ys ! (k - 1))" "map Fin ys ! k = Fin (ys ! k)"
    "map Fin ys ! (k + 1) = Fin (ys ! (k + 1))"
    by (simp_all only: nth_map)
  define a b c where "a = ys ! (k - 1)" and "b = ys ! k" and "c = ys ! (k + 1)"
  have d: "offset_divisor (Fin a) (Fin b) (Fin c) \<noteq> Fin 0"
    using accepted_divisor[OF assms] unfolding nth a_def b_def c_def .
  have "\<exists>r. jadd (Fin (real k)) (peak_offset (Fin a) (Fin b) (Fin c)) = Fin r"
  proof (cases "offset_divisor (Fin a) (Fin b) (Fin c)")
    case (Fin e)
    with d have "e \<noteq> 0" by simp
    with Fin show ?thesis by (simp add: peak_offset_def)
  qed (simp_all add: offset_divisor_def)
  then show ?thesis
    unfolding refined_peak_def Let_def nth a_def b_def c_def .
qed

section \<open>Claims about peak detection\<close>

text \<open>
  Claim C10. For every input signal and every threshold and \<open>minDistance\<close>, each peak
  returned by \<^verbatim>\<open>findPeaks\<close> is an integer index \<open>i\<close> with \<open>2 \<le> i \<le> length - 3\<close>, and
  each peak returned by \<^verbatim>\<open>findPeaksEnhanced\<close> is the refinement \<^verbatim>\<open>i + offset\<close> of such
  an index: the first two and the last two samples are never reported.
\<close>

theorem peaks_inside_window:
  "(\<forall>p\<in>set (findPeaks data threshold minDistance).
      \<exists>i. p = Fin (real i) \<and> 2 \<le> i \<and> i + 3 \<le> length data) \<and>
   (\<forall>p\<in>set (findPeaksEnhanced data minDistance adaptiveThreshold).
      \<exists>i. p = refined_peak (movingAverage data 3) i \<and> 2 \<le> i \<and> i + 3 \<le> length data)"
proof (intro conjI ballI)
  fix p assume "p \<in> set (findPeaks data threshold minDistance)"
  then obtain k where k: "k \<in> set (accepted (movingAverage data 3) threshold minDistance 2
                                     (jneg minDistance))"
    and p: "p = Fin (real k)"
    by (auto simp: findPeaks_accepted)
  from accepted_bounds[OF k] have "2 \<le> k \<and> k + 3 \<le> length data" by simp
  with p show "\<exists>i. p = Fin (real i) \<and> 2 \<le> i \<and> i + 3 \<le> length data" by blast
next
  fix p assume "p \<in> set (findPeaksEnhanced data minDistance adaptiveThreshold)"
  then obtain k where k: "k \<in> set (accepted (movingAverage data 3)
        (enhanced_threshold (movingAverage data 3) adaptiveThreshold) minDistance 2
        (jneg minDistance))"
    and p: "p = refined_peak (movingAverage data 3) k"
    by (auto simp: findPeaksEnhanced_accepted)
  from accepted_bounds[OF k] have "2 \<le> k \<and> k + 3 \<le> length data" by simp
  with p show "\<exists>i. p = refined_peak (movingAverage data 3) i \<and> 2 \<le> i \<and> i + 3 \<le> length data"
    by blast
qed

theorem peaks_inside_window_witness:
  "\<exists>i. Fin 5 = Fin (real i) \<and> 2 \<le> i \<and>
        i + 3 \<le> length (map Fin [0, 0, 12, - 6, 0, 18, - 18, 0])"
proof -
  have "findPeaks (map Fin [0, 0, 12, - 6, 0, 18, - 18, 0]) (Fin (1 / 2)) (Fin 3) = [Fin 2, Fin 5]"
    by (simp add: findPeaks_def movingAverage_def movingAverage_at_def slice_def jsum_def
        Let_def findPeaks_loop.simps is_peak_def jgt_def jge_def)
  then have "Fin 5 \<in> set (findPeaks (map Fin [0, 0, 12, - 6, 0, 18, - 18, 0]) (Fin (1 / 2)) (Fin 3))"
    by simp
  with peaks_inside_window [of "map Fin [0, 0, 12, - 6, 0, 18, - 18, 0]" "Fin (1 / 2)" "Fin 3"]
  show ?thesis by blast
qed



text \<open>
  The refinement never divides by zero. For every input signal, the peaks returned by
  \<^verbatim>\<open>findPeaksEnhanced\<close> refine indices at which the divisor \<open>2 (a - 2b + c)\<close> of the
  offset is not zero, because an accepted index has \<open>a < b\<close> and \<open>c < b\<close>; the code has,
  and needs, no guard. For a signal of finite samples within magnitude \<open>10^300\<close> every
  refined peak is therefore a finite number.
\<close>

lemma findPeaksEnhanced_divisor_nonzero:
  "(\<exists>indices.
      findPeaksEnhanced data minDistance adaptiveThreshold =
        map (refined_peak (movingAverage data 3)) indices \<and>
      list_all (\<lambda>k. offset_divisor (movingAverage data 3 ! (k - 1)) (movingAverage data 3 ! k)
                         (movingAverage data 3 ! (k + 1)) \<noteq> Fin 0) indices) \<and>
   (within_magnitude xs \<longrightarrow>
      list_all (\<lambda>p. \<exists>r. p = Fin r) (findPeaksEnhanced (map Fin xs) minDistance adaptiveThreshold))"
proof (intro conjI impI)
  let ?s = "movingAverage data 3"
  let ?acc = "accepted ?s (enhanced_threshold ?s adaptiveThreshold) minDistance 2 (jneg minDistance)"
  have "list_all (\<lambda>k. offset_divisor (?s ! (k - 1)) (?s ! k) (?s ! (k + 1)) \<noteq> Fin 0) ?acc"
    unfolding list_all_iff using accepted_divisor by blast
  moreover have "findPeaksEnhanced data minDistance adaptiveThreshold = map (refined_peak ?s) ?acc"
    by (rule findPeaksEnhanced_accepted)
  ultimately show "\<exists>indices.
      findPeaksEnhanced data minDistance adaptiveThreshold = map (refined_peak ?s) indices \<and>
      list_all (\<lambda>k. offset_divisor (?s ! (k - 1)) (?s ! k) (?s ! (k + 1)) \<noteq> Fin 0) indices"
    by blast
next
  obtain ys where ys: "movingAverage (map Fin xs) 3 = map Fin ys"
    using movingAverage_Fin by blast
  show "list_all (\<lambda>p. \<exists>r. p = Fin r) (findPeaksEnhanced (map Fin xs) minDistance adaptiveThreshold)"
    unfolding list_all_iff findPeaksEnhanced_accepted ys
    using accepted_refined_finite by auto
qed

lemma findPeaksEnhanced_divisor_nonzero_example:
  "within_magnitude [0, 0, 12, - 6, 0, 18, - 18, 0] \<and>
   list_all (\<lambda>p. \<exists>r. p = Fin r)
     (findPeaksEnhanced (map Fin [0, 0, 12, - 6, 0, 18, - 18, 0]) (Fin 3) False)"
proof -
  have h: "within_magnitude [0, 0, 12, - 6, 0, 18, - 18, 0]"
    by (simp add: within_magnitude_def)
  with findPeaksEnhanced_divisor_nonzero [of _ "Fin 3" False "[0, 0, 12, - 6, 0, 18, - 18, 0]"]
  show ?thesis by blast
qed

section \<open>Interval statistics on finite numbers\<close>

lemma intervals_of_Fin: "intervals_of (map Fin ps) = map Fin (peak_intervals ps)"
proof -
  have "jsub (map Fin ps ! i) (map Fin ps ! (i - 1)) = Fin (ps ! i - ps ! (i - 1))"
    if "i \<in> set [1..<length ps]" for i
  proof -
    have "i < length ps" and "i - 1 < length ps" using that by auto
    then show ?thesis by (simp only: nth_map jsub_Fin)
  qed
  then have "map (\<lambda>i. jsub (map Fin ps ! i) (map Fin ps ! (i - 1))) [1..<length ps] =
             map (\<lambda>i. Fin (ps ! i - ps ! (i - 1))) [1..<length ps]"
    by (rule map_cong[OF refl])
  then show ?thesis
    unfolding intervals_of_def peak_intervals_def map_map comp_def length_map .
qed

lemma mean_of_Fin: "xs \<noteq> [] \<Longrightarrow> mean_of (map Fin xs) = Fin (mean xs)"
  by (simp add: mean_of_def mean_def)

lemma foldl_squares_Fin:
  "foldl (\<lambda>a b. jadd a (jpow2 (jsub b (Fin m)))) (Fin a0) (map Fin xs) =
     Fin (a0 + (\<Sum>x\<leftarrow>xs. (x - m)\<^sup>2))"
  by (induction xs arbitrary: a0) (simp_all add: power2_eq_square add.assoc)

lemma stdDev_of_Fin: "xs \<noteq> [] \<Longrightarrow> stdDev_of (map Fin xs) (Fin (mean xs)) = Fin (stddev xs)"
proof -
  assume "xs \<noteq> []"
  have "0 \<le> (\<Sum>x\<leftarrow>xs. (x - mean xs)\<^sup>2)" by (rule sum_list_nonneg) auto
  then have "\<not> (\<Sum>x\<leftarrow>xs. (x - mean xs)\<^sup>2) / real (length xs) < 0"
    by (simp add: not_less)
  then show ?thesis using \<open>xs \<noteq> []\<close>
    by (simp add: stdDev_of_def stddev_def foldl_squares_Fin)
qed

lemma valid_interval_Fin:
  "valid_interval (Fin m) (Fin s) (Fin f) (Fin d) =
     (\<bar>d - m\<bar> \<le> 2 * s \<and> 4 / 10 * f < d \<and> d < 3 / 2 * f)"
  by (simp add: valid_interval_def jgt_def mult.commute)

lemma validIntervals_of_Fin:
  "validIntervals_of (map Fin ps) (Fin f) = map Fin (retained f (peak_intervals ps))"
proof (cases "peak_intervals ps = []")
  case True
  then show ?thesis by (simp add: validIntervals_of_def intervals_of_Fin retained_def)
next
  case False
  then show ?thesis
    by (simp add: validIntervals_of_def intervals_of_Fin retained_def mean_of_Fin stdDev_of_Fin
        filter_map comp_def valid_interval_Fin)
qed

lemma clamp_0_100_Fin: "clamp_0_100 (Fin x) = Fin (clamp100 x)"
  by (simp add: clamp_0_100_def clamp100_def)

lemma clamp100_range: "0 \<le> clamp100 x \<and> clamp100 x \<le> 100"
  by (simp add: clamp100_def)

lemma sum_list_gt:
  fixes lo :: real
  shows "xs \<noteq> [] \<Longrightarrow> \<forall>x\<in>set xs. lo < x \<Longrightarrow> lo * real (length xs) < sum_list xs"
proof (induction xs)
  case Nil
  then show ?case by simp
next
  case (Cons x xs)
  show ?case
  proof (cases "xs = []")
    case True
    with Cons.prems show ?thesis by simp
  next
    case False
    with Cons have "lo * real (length xs) < sum_list xs" by simp
    moreover have "lo < x" using Cons.prems by simp
    ultimately show ?thesis by (simp add: algebra_simps)
  qed
qed

lemma sum_list_lt:
  fixes hi :: real
  shows "xs \<noteq> [] \<Longrightarrow> \<forall>x\<in>set xs. x < hi \<Longrightarrow> sum_list xs < hi * real (length xs)"
proof (induction xs)
  case Nil
  then show ?case by simp
next
  case (Cons x xs)
  show ?case
  proof (cases "xs = []")
    case True
    with Cons.prems show ?thesis by simp
  next
    case False
    with Cons have "sum_list xs < hi * real (length xs)" by simp
    moreover have "x < hi" using Cons.prems by simp
    ultimately show ?thesis by (simp add: algebra_simps)
  qed
qed

lemma mean_between:
  assumes "xs \<noteq> []" and "\<forall>x\<in>set xs. lo < x \<and> x < hi"
  shows "lo < mean xs \<and> mean xs < hi"
proof -
  have n: "0 < real (length xs)" using assms(1) by simp
  have "lo * real (length xs) < sum_list xs" using assms by (intro sum_list_gt) auto
  moreover have "sum_list xs < hi * real (length xs)" using assms by (intro sum_list_lt) auto
  ultimately show ?thesis using n by (simp add: mean_def field_simps)
qed

lemma retained_mean:
  assumes "retained f ivs \<noteq> []"
  shows "0 < f \<and> 4 / 10 * f < mean (retained f ivs) \<and> mean (retained f ivs) < 3 / 2 * f"
proof -
  have all: "\<forall>d\<in>set (retained f ivs). 4 / 10 * f < d \<and> d < 3 / 2 * f"
    by (simp add: retained_def)
  from assms obtain d where d: "d \<in> set (retained f ivs)" by (cases "retained f ivs") auto
  from all d have "4 / 10 * f < d" "d < 3 / 2 * f" by blast+
  then have "0 < f" by linarith
  with mean_between[OF assms all] show ?thesis by blast
qed

lemma retained_bpm:
  assumes "retained f ivs \<noteq> []"
  shows "40 \<le> bpm_of f (retained f ivs) \<and> bpm_of f (retained f ivs) \<le> 150"
proof -
  let ?m = "mean (retained f ivs)"
  from retained_mean[OF assms] have f: "0 < f" and lo: "4 / 10 * f < ?m" and hi: "?m < 3 / 2 * f"
    by simp_all
  have m: "0 < ?m" using f lo by linarith
  have "40 * ?m < f * 60" using hi by linarith
  then have a: "40 < f * 60 / ?m" using m by (simp only: pos_less_divide_eq)
  have "f * 60 < 150 * ?m" using lo by linarith
  then have b: "f * 60 / ?m < 150" using m by (simp only: pos_divide_less_eq)
  have "40 \<le> \<lfloor>f * 60 / ?m + 1 / 2\<rfloor>" using a by linarith
  moreover have "\<lfloor>f * 60 / ?m + 1 / 2\<rfloor> \<le> 150" using b by linarith
  ultimately show ?thesis unfolding bpm_of_def by simp
qed

lemma calculateHeartRate_Fin:
  assumes "3 \<le> length ps" and "2 \<le> length (retained f (peak_intervals ps))"
    and "n \<noteq> 0" and "mean (peak_intervals ps) \<noteq> 0"
  shows "calculateHeartRate (map Fin ps) (Fin n) (Fin f) =
     (Fin (bpm_of f (retained f (peak_intervals ps))),
      Fin (clamp100 (100 * (1 - stddev (peak_intervals ps) / mean (peak_intervals ps)) *
             (1 - density_error (length ps) n f (bpm_of f (retained f (peak_intervals ps)))))))"
proof -
  let ?D = "peak_intervals ps" and ?V = "retained f (peak_intervals ps)"
  have D: "?D \<noteq> []" using assms(1) by (auto simp: peak_intervals_def)
  have V: "?V \<noteq> []" using assms(2) by auto
  from retained_mean[OF V] have f: "f \<noteq> 0" and mV: "mean ?V \<noteq> 0" by auto
  from retained_bpm[OF V] have bpm: "bpm_of f ?V / 60 \<noteq> 0" by simp
  have nf: "n / f \<noteq> 0" using assms(3) f by simp
  have mD: "mean_of (map Fin ?D) = Fin (mean ?D)" using D by (rule mean_of_Fin)
  have sD: "stdDev_of (map Fin ?D) (Fin (mean ?D)) = Fin (stddev ?D)" using D by (rule stdDev_of_Fin)
  have mVF: "mean_of (map Fin ?V) = Fin (mean ?V)" using V by (rule mean_of_Fin)
  have bpm_eq: "jround (jdiv (jmul (Fin f) (Fin 60)) (Fin (mean ?V))) = Fin (bpm_of f ?V)"
    using mV by (simp add: bpm_of_def)
  have iv: "jdiv (Fin (stddev ?D)) (Fin (mean ?D)) = Fin (stddev ?D / mean ?D)"
    using assms(4) by simp
  have de: "jabs (jsub (Fin 1)
              (jdiv (jdiv (Fin (real (length ps))) (jdiv (Fin n) (Fin f)))
                    (jdiv (Fin (bpm_of f ?V)) (Fin 60)))) =
            Fin (density_error (length ps) n f (bpm_of f ?V))"
    using f nf bpm by (simp add: density_error_def)
  have c: "clamp_0_100 (jmul (jmul (Fin 100) (jsub (Fin 1) (Fin (stddev ?D / mean ?D))))
             (jsub (Fin 1) (Fin (density_error (length ps) n f (bpm_of f ?V))))) =
           Fin (clamp100 (100 * (1 - stddev ?D / mean ?D) *
             (1 - density_error (length ps) n f (bpm_of f ?V))))"
    by (simp add: clamp_0_100_Fin)
  have g1: "\<not> length (map Fin ps) < 3" using assms(1) by simp
  have g2: "\<not> length (map Fin ?V) < 2" using assms(2) by simp
  show ?thesis
    by (simp only: calculateHeartRate_def Let_def validIntervals_of_Fin intervals_of_Fin
      length_map mD sD mVF bpm_eq iv de c g1[unfolded length_map] g2[unfolded length_map] if_False)
qed

lemma retained_bounds:
  "x \<in> set (retained f ivs) \<Longrightarrow> 4 / 10 * f < x \<and> x < 3 / 2 * f \<and> x \<in> set ivs"
  by (simp add: retained_def)

lemma peak_intervals_positive:
  assumes "sorted_wrt (<) ks"
  shows "\<forall>x\<in>set (peak_intervals (map real ks)). 0 < x"
proof
  fix x assume "x \<in> set (peak_intervals (map real ks))"
  then obtain i where i: "1 \<le> i" "i < length ks"
    and x: "x = map real ks ! i - map real ks ! (i - 1)"
    by (auto simp: peak_intervals_def)
  have "i - 1 < i" using i by simp
  with assms have "ks ! (i - 1) < ks ! i"
    using i(2) by (rule sorted_wrt_nth_less)
  moreover have "i - 1 < length ks" using i by simp
  ultimately show "0 < x" using i x by simp
qed

lemma peak_intervals_mean_pos:
  assumes "sorted_wrt (<) ks" and "2 \<le> length ks"
  shows "0 < mean (peak_intervals (map real ks))"
proof -
  let ?D = "peak_intervals (map real ks)"
  have ne: "?D \<noteq> []" using assms(2) by (auto simp: peak_intervals_def)
  have "0 * real (length ?D) < sum_list ?D"
    using ne peak_intervals_positive[OF assms(1)] by (rule sum_list_gt)
  moreover have "0 < real (length ?D)" using ne by simp
  ultimately show ?thesis by (simp add: mean_def)
qed

section \<open>The estimators on concrete peak lists\<close>

lemma ex_intervals_45: "peak_intervals [0, 45, 90, 135] = [45, 45, 45]"
  by (simp add: peak_intervals_def upt_rec_numeral)

lemma ex_retained_45: "retained 30 [45, 45, 45] = []"
  by (simp add: retained_def)

lemma ex_retained_inclusive_45: "retained_inclusive 30 [45, 45, 45] = [45, 45, 45]"
  by (simp add: retained_inclusive_def mean_def stddev_def)

lemma ex_heartRate_45: "calculateHeartRate (map Fin [0, 45, 90, 135]) (Fin 135) (Fin 30) = (Fin 0, Fin 0)"
  by (simp add: calculateHeartRate_def Let_def validIntervals_of_Fin ex_intervals_45 ex_retained_45 del: list.map)

lemma ex_intervals_jump: "peak_intervals [0, 2, 4, 6, 8, 18] = [2, 2, 2, 2, 10]"
  by (simp add: peak_intervals_def upt_rec_numeral)

lemma ex_mean_jump: "mean [2, 2, 2, 2, 10] = 18 / 5"
  by (simp add: mean_def)

lemma ex_stddev_jump: "stddev [2, 2, 2, 2, 10] = 16 / 5"
proof -
  have "stddev [2, 2, 2, 2, 10] = sqrt ((16 / 5)\<^sup>2)"
    by (simp add: stddev_def ex_mean_jump power2_eq_square)
  then show ?thesis by (simp only: real_sqrt_abs)
qed

lemma ex_retained_jump: "retained 2 [2, 2, 2, 2, 10] = [2, 2, 2, 2]"
  by (simp add: retained_def ex_mean_jump ex_stddev_jump)

lemma ex_stats_2222: "mean [2, 2, 2, 2] = 2" "stddev [2, 2, 2, 2] = 0"
  by (simp_all add: mean_def stddev_def)

lemma ex_bpm_2222: "bpm_of 2 [2, 2, 2, 2] = 60"
  by (simp add: bpm_of_def ex_stats_2222)

lemma ex_heartRate_jump: "calculateHeartRate (map Fin [0, 2, 4, 6, 8, 18]) (Fin 12) (Fin 2) = (Fin 60, Fin (100 / 9))"
  by (subst calculateHeartRate_Fin)
     (simp_all add: ex_intervals_jump ex_mean_jump ex_stddev_jump ex_retained_jump ex_stats_2222 ex_bpm_2222 density_error_def clamp100_def)

lemma ex_intervals_222: "peak_intervals [0, 2, 4, 6] = [2, 2, 2]"
  by (simp add: peak_intervals_def upt_rec_numeral)

lemma ex_stats_222: "mean [2, 2, 2] = 2" "stddev [2, 2, 2] = 0"
  by (simp_all add: mean_def stddev_def)

lemma ex_retained_222: "retained 2 [2, 2, 2] = [2, 2, 2]"
  by (simp add: retained_def ex_stats_222)

lemma ex_retained_inclusive_jump: "retained_inclusive 2 [2, 2, 2, 2, 10] = [2, 2, 2, 2]"
  by (simp add: retained_inclusive_def ex_mean_jump ex_stddev_jump)

lemma ex_retained_inclusive_222: "retained_inclusive 2 [2, 2, 2] = [2, 2, 2]"
  by (simp add: retained_inclusive_def ex_stats_222)

lemma ex_heartRate_222:
  "calculateHeartRate (map Fin [0, 2, 4, 6]) (Fin 8) (Fin 2) = (Fin 60, Fin 100)"
  by (subst calculateHeartRate_Fin)
     (simp_all add: ex_intervals_222 ex_stats_222 ex_retained_222 bpm_of_def density_error_def
        clamp100_def)

section \<open>Claims about heart-rate estimation\<close>

text \<open>
  Claim C2. With fewer than 3 peaks, or fewer than 2 intervals surviving the filter,
  \<^verbatim>\<open>calculateHeartRate\<close> returns the pair \<open>(0, 0)\<close>; with fewer than 4 peaks, or fewer
  than 3 surviving intervals, \<^verbatim>\<open>calculateHeartRateEnhanced\<close> returns \<open>(0, 0)\<close> and does
  not throw; in particular on the peak lists \<open>[]\<close> and \<open>[10]\<close> with 300 frames at 30 frames
  per second.
\<close>

theorem heartRate_sentinel:
  "(length peaks < 3 \<or> length (validIntervals_of peaks fps) < 2 \<longrightarrow>
      calculateHeartRate peaks totalFrames fps = (Fin 0, Fin 0)) \<and>
   (length peaks < 4 \<or> length (validIntervals_of peaks fps) < 3 \<longrightarrow>
      calculateHeartRateEnhanced peaks totalFrames fps = Inr (Fin 0, Fin 0)) \<and>
   calculateHeartRate [] (Fin 300) (Fin 30) = (Fin 0, Fin 0) \<and>
   calculateHeartRate [Fin 10] (Fin 300) (Fin 30) = (Fin 0, Fin 0) \<and>
   calculateHeartRateEnhanced [] (Fin 300) (Fin 30) = Inr (Fin 0, Fin 0) \<and>
   calculateHeartRateEnhanced [Fin 10] (Fin 300) (Fin 30) = Inr (Fin 0, Fin 0)"
  by (simp add: calculateHeartRate_def calculateHeartRateEnhanced_def Let_def)

theorem heartRate_sentinel_witness:
  "length (validIntervals_of (map Fin [0, 45, 90, 135]) (Fin 30)) < 2 \<and>
   calculateHeartRate (map Fin [0, 45, 90, 135]) (Fin 300) (Fin 30) = (Fin 0, Fin 0) \<and>
   calculateHeartRateEnhanced (map Fin [0, 45, 90, 135]) (Fin 300) (Fin 30) = Inr (Fin 0, Fin 0)"
proof -
  have "length (validIntervals_of (map Fin [0, 45, 90, 135]) (Fin 30)) < 2"
    by (simp only: validIntervals_of_Fin ex_intervals_45 ex_retained_45) simp
  with heartRate_sentinel [of "map Fin [0, 45, 90, 135]" "Fin 30" "Fin 300"]
  show ?thesis by simp
qed




section \<open>Heart-rate variability of a regular rhythm\<close>

lemma hrv_intervals_Fin:
  assumes "f \<noteq> 0"
  shows "hrv_intervals (map Fin ps) (Fin f) = map (\<lambda>x. Fin (x * (1000 / f))) (peak_intervals ps)"
proof (rule nth_equalityI)
  show "length (hrv_intervals (map Fin ps) (Fin f)) =
        length (map (\<lambda>x. Fin (x * (1000 / f))) (peak_intervals ps))"
    by (simp add: hrv_intervals_def peak_intervals_def)
next
  fix i assume "i < length (hrv_intervals (map Fin ps) (Fin f))"
  then have i: "i < length ps - 1" by (simp add: hrv_intervals_def)
  then have "i < length ps" "i + 1 < length ps" by linarith+
  then have l: "hrv_intervals (map Fin ps) (Fin f) ! i = Fin ((ps ! (i + 1) - ps ! i) * (1000 / f))"
    using i assms by (simp add: hrv_intervals_def)
  have r: "peak_intervals ps ! i = ps ! (i + 1) - ps ! i"
    using i by (simp add: peak_intervals_def)
  show "hrv_intervals (map Fin ps) (Fin f) ! i =
        map (\<lambda>x. Fin (x * (1000 / f))) (peak_intervals ps) ! i"
    using i l r by (simp add: peak_intervals_def)
qed

lemma stddev_constant:
  assumes "\<forall>x\<in>set xs. x = c" and "xs \<noteq> []"
  shows "mean xs = c" and "stddev xs = 0"
proof -
  have xs: "xs = replicate (length xs) c"
    using assms(1) by (simp add: replicate_length_same)
  have "sum_list xs = real (length xs) * c"
    by (subst xs) (simp add: sum_list_replicate)
  then show m: "mean xs = c" using assms(2) by (simp add: mean_def)
  have "(\<Sum>x\<leftarrow>xs. (x - c)\<^sup>2) = 0"
    using assms(1) by (induction xs) simp_all
  then show "stddev xs = 0" by (simp add: stddev_def m)
qed

lemma calculateHRV_regular:
  assumes "3 \<le> length ps" and "f \<noteq> 0" and "\<forall>x\<in>set (peak_intervals ps). x = d"
  shows "sdnn (calculateHRV (map Fin ps) (Fin f)) = Fin 0"
    and "rmssd (calculateHRV (map Fin ps) (Fin f)) = Fin 0"
    and "pnn50 (calculateHRV (map Fin ps) (Fin f)) = Fin 0"
proof -
  let ?I = "map (\<lambda>x. x * (1000 / f)) (peak_intervals ps)"
  let ?c = "d * (1000 / f)"
  have len: "length ?I = length ps - 1" by (simp add: peak_intervals_def)
  have I: "hrv_intervals (map Fin ps) (Fin f) = map Fin ?I"
    using assms(2) by (simp add: hrv_intervals_Fin)
  have ne: "?I \<noteq> []" using assms(1) len by auto
  have const: "\<forall>x\<in>set ?I. x = ?c" using assms(3) by auto
  have m: "mean_of (map Fin ?I) = Fin ?c"
    using mean_of_Fin[OF ne] stddev_constant(1)[OF const ne] by simp
  have s: "stdDev_of (map Fin ?I) (Fin ?c) = Fin 0"
    using stdDev_of_Fin[OF ne] stddev_constant[OF const ne] by simp
  have nth: "map Fin ?I ! i = Fin ?c" if "i < length ?I" for i
  proof -
    have "?I ! i \<in> set ?I" using that by (rule nth_mem)
    with const have "?I ! i = ?c" by blast
    with that show ?thesis by (simp only: nth_map)
  qed
  have sd: "map (\<lambda>i. jpow2 (jsub (map Fin ?I ! (i + 1)) (map Fin ?I ! i)))
                [0..<length (map Fin ?I) - 1]
              = map (\<lambda>i. Fin 0) [0..<length (map Fin ?I) - 1]"
  proof (rule map_cong[OF refl])
    fix i assume "i \<in> set [0..<length (map Fin ?I) - 1]"
    then have "i < length ?I" "i + 1 < length ?I" by auto
    then show "jpow2 (jsub (map Fin ?I ! (i + 1)) (map Fin ?I ! i)) = Fin 0"
      by (simp only: nth) simp
  qed
  have nn: "filter (\<lambda>i. jgt (jabs (jsub (map Fin ?I ! (i + 1)) (map Fin ?I ! i))) (Fin 50))
              [0..<length (map Fin ?I) - 1] = []"
  proof -
    have "\<not> jgt (jabs (jsub (map Fin ?I ! (i + 1)) (map Fin ?I ! i))) (Fin 50)"
      if "i \<in> set [0..<length (map Fin ?I) - 1]" for i
    proof -
      from that have "i < length ?I" "i + 1 < length ?I" by auto
      then show ?thesis by (simp only: nth) (simp add: jgt_def)
    qed
    then show ?thesis by (simp only: filter_empty_conv) blast
  qed
  have zeros: "jsum (map (\<lambda>i. Fin 0) [0..<k]) = Fin 0" for k :: nat
  proof -
    have "map (\<lambda>i. Fin 0) [0..<k] = map Fin (replicate k 0)"
      by (simp add: map_replicate_const)
    then show ?thesis by (simp only: jsum_Fin) (simp add: sum_list_replicate)
  qed
  have k: "real (length ?I - 1) \<noteq> 0" using assms(1) len by simp
  have k': "real (length ?I) \<noteq> 0" using ne by simp
  show "sdnn (calculateHRV (map Fin ps) (Fin f)) = Fin 0"
    unfolding calculateHRV_def Let_def I m s by simp
  show "rmssd (calculateHRV (map Fin ps) (Fin f)) = Fin 0"
    unfolding calculateHRV_def Let_def I sd zeros using k by simp
  show "pnn50 (calculateHRV (map Fin ps) (Fin f)) = Fin 0"
    unfolding calculateHRV_def Let_def I nn using k' by simp
qed

section \<open>Claim about heart-rate variability\<close>




section \<open>Oxygen saturation of a finite window\<close>

lemma normalizeSignal_visualizer_red:
  "xs \<noteq> [] \<Longrightarrow> normalizeSignal_visualizer (map Fin xs) = map Fin (normalized_red xs)"
  by (simp add: normalizeSignal_visualizer_Fin normalized_red_def)

lemma member_le_sum_list_real:
  fixes ys :: "real list"
  shows "\<forall>x\<in>set ys. 0 \<le> x \<Longrightarrow> y \<in> set ys \<Longrightarrow> y \<le> sum_list ys"
proof (induction ys)
  case Nil
  then show ?case by simp
next
  case (Cons a ys)
  have nn: "0 \<le> sum_list ys" using Cons.prems(1) by (intro sum_list_nonneg) simp
  show ?case
  proof (cases "y = a")
    case True
    with nn show ?thesis by simp
  next
    case False
    with Cons have "y \<le> sum_list ys" by simp
    moreover have "0 \<le> a" using Cons.prems(1) by simp
    ultimately show ?thesis by simp
  qed
qed

lemma normalized_red_mean_pos:
  assumes "xs \<noteq> []" and "Min (set xs) < Max (set xs)"
  shows "0 < mean (normalized_red xs)"
proof -
  let ?mn = "Min (set xs)" and ?mx = "Max (set xs)"
  let ?e = "?mx - ?mn + 1 / 10000"
  have e: "0 < ?e" using assms(2) by simp
  have nonneg: "\<forall>y\<in>set (normalized_red xs). 0 \<le> y"
    using e by (auto simp: normalized_red_def)
  have "?mx \<in> set xs" using assms(1) by simp
  then have top: "(?mx - ?mn) / ?e \<in> set (normalized_red xs)"
    by (force simp: normalized_red_def)
  have "0 < (?mx - ?mn) / ?e" using assms(2) e by simp
  also have "\<dots> \<le> sum_list (normalized_red xs)"
    using nonneg top by (rule member_le_sum_list_real)
  finally have "0 < sum_list (normalized_red xs)" .
  moreover have "0 < real (length (normalized_red xs))"
    using assms(1) by (simp add: normalized_red_def)
  ultimately show ?thesis by (simp add: mean_def)
qed

lemma spo2_clamped_range: "70 \<le> spo2_clamped R r \<and> spo2_clamped R r \<le> 100"
  by (simp add: spo2_clamped_def Let_def)

lemma round1_range:
  assumes "70 \<le> c" and "c \<le> 100"
  shows "70 \<le> round1 c \<and> round1 c \<le> 100"
proof -
  have "700 \<le> \<lfloor>c * 10 + 1 / 2\<rfloor>" using assms(1) by linarith
  moreover have "\<lfloor>c * 10 + 1 / 2\<rfloor> \<le> 1000" using assms(2) by linarith
  ultimately show ?thesis by (simp add: round1_def)
qed

lemma calculateSpO2_Fin:
  assumes "60 \<le> length xs" and "Min (set xs) < Max (set xs)"
  shows "fst (calculateSpO2 Finger (Fin r) (map Fin xs) frameCount) =
           Fin (round1 (spo2_clamped (spo2_ratio xs) r))"
proof -
  let ?N = "normalized_red xs"
  have xs: "xs \<noteq> []" using assms(1) by auto
  have N: "?N \<noteq> []" using xs by (simp add: normalized_red_def)
  have norm: "normalizeSignal_visualizer (map Fin xs) = map Fin ?N"
    using xs by (rule normalizeSignal_visualizer_red)
  have m: "mean_of (map Fin ?N) = Fin (mean ?N)" using N by (rule mean_of_Fin)
  have s: "stdDev_of (map Fin ?N) (Fin (mean ?N)) = Fin (stddev ?N)" using N by (rule stdDev_of_Fin)
  have "mean ?N \<noteq> 0" using normalized_red_mean_pos[OF xs assms(2)] by simp
  then have R: "jdiv (Fin (stddev ?N)) (Fin (mean ?N)) = Fin (spo2_ratio xs)"
    by (simp add: spo2_ratio_def)
  have g: "\<not> (length (map Fin xs) < 60 \<or> Finger \<noteq> Finger)" using assms(1) by simp
  have "fst (calculateSpO2 Finger (Fin r) (map Fin xs) frameCount) =
        jdiv (jround (jmul (jmin (Fin 100) (jmax (Fin 70)
          (jadd (jsub (Fin 110) (jmul (Fin 25) (Fin (spo2_ratio xs))))
             (jadd (jmul (jsub (jmul (Fin r) (Fin 2)) (Fin 1)) (Fin (1 / 2)))
                (if jlt (jsub (Fin 110) (jmul (Fin 25) (Fin (spo2_ratio xs)))) (Fin 95)
                 then Fin (1 / 2)
                 else if jgt (jsub (Fin 110) (jmul (Fin 25) (Fin (spo2_ratio xs)))) (Fin 99)
                      then Fin (- (3 / 10)) else Fin 0))))) (Fin 10))) (Fin 10)"
    unfolding calculateSpO2_def Let_def norm m s R using g by (simp only: if_False fst_conv)
  also have "\<dots> = Fin (round1 (spo2_clamped (spo2_ratio xs) r))"
    by (simp add: spo2_clamped_def round1_def Let_def jgt_def)
  finally show ?thesis .
qed

lemma calculateSpO2_flat_NaN:
  "calculateSpO2 Finger (Fin r) (map Fin (replicate 60 c)) (Fin 60) = (NaN, Fin 60)"
proof -
  have norm: "normalizeSignal_visualizer (map Fin (replicate 60 c)) = map Fin (replicate 60 0)"
    using normalizeSignal_visualizer_flat[of "replicate 60 c" c] by (simp add: map_replicate)
  have ne: "replicate 60 (0 :: real) \<noteq> []" by simp
  have z: "\<forall>x\<in>set (replicate 60 (0 :: real)). x = 0" by simp
  have m: "mean_of (map Fin (replicate 60 0)) = Fin 0"
    using mean_of_Fin[OF ne] stddev_constant(1)[OF z ne] by simp
  have s: "stdDev_of (map Fin (replicate 60 0)) (Fin 0) = Fin 0"
    using stdDev_of_Fin[OF ne] stddev_constant[OF z ne] by simp
  have g: "\<not> (length (map Fin (replicate 60 c)) < 60 \<or> Finger \<noteq> Finger)" by simp
  show ?thesis
    unfolding calculateSpO2_def Let_def norm m s using g
    by (simp add: jgt_def jsub_def jmin_def jmax_def)
qed

section \<open>Claim about oxygen saturation\<close>




section \<open>Claim about stopping an idle session\<close>

text \<open>
  Claim C9, as stated, fails for \<^verbatim>\<open>stopMeasurement\<close>: called on the initial session,
  which is idle and not measuring, it moves the phase to \<^verbatim>\<open>'complete'\<close>, sets the
  progress to 100 and shows the error toast.
\<close>

theorem stopMeasurement_idle_changes_state:
  "phase initial_session = Idle \<and>
   phase (fst (stopMeasurement \<lparr>torch = False, throws = False, rejects = False\<rparr> (Fin 0) initial_session)) = Complete \<and>
   progress (fst (stopMeasurement \<lparr>torch = False, throws = False, rejects = False\<rparr> (Fin 0) initial_session)) = Fin 100 \<and>
   fst (stopMeasurement \<lparr>torch = False, throws = False, rejects = False\<rparr> (Fin 0) initial_session) \<noteq> initial_session \<and>
   snd (stopMeasurement \<lparr>torch = False, throws = False, rejects = False\<rparr> (Fin 0) initial_session) =
     [Toast_error ''Unable to get reliable heart rate. Please try again in better lighting conditions.'']"
proof -
  have r: "stopMeasurement \<lparr>torch = False, throws = False, rejects = False\<rparr> (Fin 0) initial_session =
     (initial_session\<lparr>measuring := False, progress := Fin 100, phase := Complete,
                      faceTrackingActive := False\<rparr>,
      [Toast_error ''Unable to get reliable heart rate. Please try again in better lighting conditions.''])"
    by (simp add: stopMeasurement_def initial_session_def truthy_def Let_def)
  show ?thesis unfolding r by (simp add: initial_session_def)
qed

text \<open>
  Claim C9, amended. \<^verbatim>\<open>stopRecording\<close> on a monitor that is not recording raises no
  error and leaves the recording flag, the phase, the frame buffer, the heart rate, the
  confidence, the HRV data and the history unchanged: it only switches the flash flags off
  (when a media stream is present) and speaks the stop message, and when the flash flags
  are already off the state is unchanged. \<^verbatim>\<open>stopMeasurement\<close> on an idle session is not
  a no-op: it sets the phase to \<^verbatim>\<open>'complete'\<close>, the progress to 100, clears the
  measuring and face-tracking flags and shows the completion toast (when a heart rate with
  confidence above 50 is held) or the error toast; it leaves the buffers, the heart rate,
  the confidence, the SpO2 and the history unchanged.
\<close>

theorem stop_when_idle:
  "(\<not> isRecording m \<longrightarrow>
      fst (stopRecording dev m) =
        m\<lparr>isFlashOn := isFlashOn m \<and> \<not> mediaStream m,
          useScreenFlash := useScreenFlash m \<and> \<not> mediaStream m\<rparr> \<and>
      (\<not> isFlashOn m \<and> \<not> useScreenFlash m \<longrightarrow> fst (stopRecording dev m) = m) \<and>
      Speak ''Stopping heart rate measurement.'' \<in> set (snd (stopRecording dev m))) \<and>
   (phase s = Idle \<longrightarrow>
      phase (fst (stopMeasurement dev now s)) = Complete \<and>
      progress (fst (stopMeasurement dev now s)) = Fin 100 \<and>
      \<not> measuring (fst (stopMeasurement dev now s)) \<and>
      \<not> faceTrackingActive (fst (stopMeasurement dev now s)) \<and>
      frameDataRef (fst (stopMeasurement dev now s)) = frameDataRef s \<and>
      peaksRef (fst (stopMeasurement dev now s)) = peaksRef s \<and>
      heartRate (fst (stopMeasurement dev now s)) = heartRate s \<and>
      confidence (fst (stopMeasurement dev now s)) = confidence s \<and>
      spo2 (fst (stopMeasurement dev now s)) = spo2 s \<and>
      measurementHistory (fst (stopMeasurement dev now s)) = measurementHistory s \<and>
      (if truthy (heartRate s) \<and> jgt (confidence s) (Fin 50)
       then Toast_complete (the (heartRate s)) (confidence s)
       else Toast_error ''Unable to get reliable heart rate. Please try again in better lighting conditions.'')
        \<in> set (snd (stopMeasurement dev now s)))"
proof (intro conjI impI)
  assume idle: "\<not> isRecording m"
  then have "m\<lparr>isRecording := False\<rparr> = m" by simp
  then show "fst (stopRecording dev m) =
        m\<lparr>isFlashOn := isFlashOn m \<and> \<not> mediaStream m,
          useScreenFlash := useScreenFlash m \<and> \<not> mediaStream m\<rparr>"
    by (simp add: stopRecording_def toggleFlash_mon_def Let_def split_def)
  show "Speak ''Stopping heart rate measurement.'' \<in> set (snd (stopRecording dev m))"
    by (simp add: stopRecording_def Let_def split_def)
  assume "\<not> isFlashOn m \<and> \<not> useScreenFlash m"
  with idle show "fst (stopRecording dev m) = m"
    by (simp add: stopRecording_def toggleFlash_mon_def Let_def split_def)
next
  assume idle: "phase s = Idle"
  have r: "fst (stopMeasurement dev now s) =
     s\<lparr>measuring := False, progress := Fin 100, phase := Complete,
       flashActive := flashActive s \<and>
         \<not> (measurementMode s = Finger \<and> stream s \<and> \<not> throws dev \<and> torch dev \<and>
            \<not> rejects dev),
       faceTrackingActive := False\<rparr>"
    using idle
    by (cases s) (auto simp add: stopMeasurement_def toggleFlash_def saveToHistory_def Let_def split_def)
  show "phase (fst (stopMeasurement dev now s)) = Complete"
    and "progress (fst (stopMeasurement dev now s)) = Fin 100"
    and "\<not> measuring (fst (stopMeasurement dev now s))"
    and "\<not> faceTrackingActive (fst (stopMeasurement dev now s))"
    and "frameDataRef (fst (stopMeasurement dev now s)) = frameDataRef s"
    and "peaksRef (fst (stopMeasurement dev now s)) = peaksRef s"
    and "heartRate (fst (stopMeasurement dev now s)) = heartRate s"
    and "confidence (fst (stopMeasurement dev now s)) = confidence s"
    and "spo2 (fst (stopMeasurement dev now s)) = spo2 s"
    and "measurementHistory (fst (stopMeasurement dev now s)) = measurementHistory s"
    unfolding r by simp_all
  show "(if truthy (heartRate s) \<and> jgt (confidence s) (Fin 50)
       then Toast_complete (the (heartRate s)) (confidence s)
       else Toast_error ''Unable to get reliable heart rate. Please try again in better lighting conditions.'')
        \<in> set (snd (stopMeasurement dev now s))"
    by (simp add: stopMeasurement_def Let_def split_def)
qed

theorem stop_when_idle_witness:
  "(\<not> isRecording initial_monitor \<and> \<not> isFlashOn initial_monitor \<and>
    \<not> useScreenFlash initial_monitor) \<and>
   fst (stopRecording \<lparr>torch = True, throws = False, rejects = False\<rparr> initial_monitor) = initial_monitor \<and>
   phase initial_session = Idle \<and>
   phase (fst (stopMeasurement \<lparr>torch = True, throws = False, rejects = False\<rparr> (Fin 0) initial_session)) = Complete \<and>
   measurementHistory (fst (stopMeasurement \<lparr>torch = True, throws = False, rejects = False\<rparr> (Fin 0) initial_session)) =
     measurementHistory initial_session"
proof -
  have a: "\<not> isRecording initial_monitor \<and> \<not> isFlashOn initial_monitor \<and>
    \<not> useScreenFlash initial_monitor"
    by (simp add: initial_monitor_def)
  have b: "phase initial_session = Idle" by (simp add: initial_session_def)
  from a b stop_when_idle [of initial_monitor "\<lparr>torch = True, throws = False, rejects = False\<rparr>" initial_session "Fin 0"]
  show ?thesis by blast
qed

end
